theory Spec2Isabelle
  imports Complex_Main "HOL-Library.Word" "HOL-Library.Log_Nat"
begin

unbundle bit_operations_syntax

section \<open>The LTC decoder of decoder.c\<close>

text \<open>
  The decoder of \<^verbatim>\<open>src/decoder.c\<close>: \<^verbatim>\<open>calc_volume_db\<close>, \<^verbatim>\<open>parse_ltc\<close>,
  \<^verbatim>\<open>biphase_decode2\<close> and \<^verbatim>\<open>decode_ltc\<close>. The decoder structure is passed and returned
  explicitly. The C function bodies are split at their statement blocks; every definition
  names the source lines it embeds.

  Numbers. Samples are unsigned bytes (\<open>8 word\<close>); the arithmetic on them is done in
  \<open>int\<close>, as the integer promotions of C do, and stored back modulo 256. The sync word
  is a \<open>16 word\<close>. Counters and indices that the code only increments, resets to 0 or
  decrements under a guard are \<open>nat\<close>; sample positions (\<^verbatim>\<open>ltc_off_t\<close>) and the
  limit are \<open>int\<close>, without overflow.

  Floating point. The period estimate is a C \<^verbatim>\<open>double\<close>, an IEEE 754 binary64 number.
  It is modelled by the real number that the \<^verbatim>\<open>double\<close> denotes. Every floating
  operation of the source is the exact operation on these reals followed by \<open>dbl\<close>, the
  rounding to the nearest \<^verbatim>\<open>double\<close> (ties to even, subnormal numbers included); each
  operation is rounded once, in the order in which C evaluates the expression. Every
  conversion of an integer to a \<^verbatim>\<open>double\<close> is \<open>dbl\<close> as well, and every conversion
  of a \<^verbatim>\<open>double\<close> to an integer type is the truncation \<open>c_trunc\<close>. The exponent of
  \<open>dbl\<close> has no upper end: a result of \<open>2 ^ 1024\<close> or more, an infinity in C, is a large
  real here, and there is no NaN. Two places stay exact: the sum of line 156, whose
  operands are whole numbers (it is exact in C too as long as the position is below
  \<open>2 ^ 53\<close>), and the volume of \<^verbatim>\<open>calc_volume_db\<close>, which goes through the library
  function \<^verbatim>\<open>log10\<close>.

  Arrays. The register, the ring of tics and the queue are lists. Where the C code would
  write or read outside an array, the lists of HOL leave the list as it is or give an
  unspecified element; the statements below that depend on an array say how long it is
  (\<open>length (ltc_frame d) = 10\<close>, \<open>queue_ok d\<close>).
\<close>

subsection \<open>Constants and types of the header\<close>

text \<open>Modelled from the spec: the header \<^verbatim>\<open>decoder.h\<close> is not part of the sources.
  The spec fixes the frame at 80 bits (10 bytes), the sync word at 16 bits, samples as
  unsigned amplitudes on the scale 0..255 with a fixed centre; the centre of that scale
  is 128.\<close>

type_synonym ltcsnd_sample_t = "8 word"
type_synonym ltc_off_t = int

abbreviation LTC_FRAME_BIT_COUNT :: nat where
  "LTC_FRAME_BIT_COUNT \<equiv> 80"

abbreviation SAMPLE_CENTER :: int where
  "SAMPLE_CENTER \<equiv> 128"

text \<open>The volume is a \<^verbatim>\<open>double\<close> that may be minus infinity.\<close>

datatype volume_db = MinusInfinity | Db real

text \<open>Modelled from the spec: \<^verbatim>\<open>LTCFrameExt\<close>, one slot of the queue, is declared in
  the header; its fields are the eight that lines 187-201 and 243-257 assign, typed as the
  spec describes the frame record. The payload \<^verbatim>\<open>ltc\<close> is the 10 bytes of the frame,
  byte 0 first; the positions are integers; \<^verbatim>\<open>reverse\<close> is an integer.\<close>

record LTCFrameExt =
  ltc :: "8 word list"
  off_start :: ltc_off_t
  off_end :: ltc_off_t
  reverse :: int
  ext_biphase_tics :: "real list"
  sample_min :: ltcsnd_sample_t
  sample_max :: ltcsnd_sample_t
  volume :: volume_db

text \<open>Modelled from the spec: \<^verbatim>\<open>LTCDecoder\<close> is declared in the header; the fields
  are those that decoder.c reads or writes. The two-level state and the two biphase states
  are bytes that hold 0 or 1; \<open>cnt\<close>, \<open>bit_cnt\<close>, the tic index and the queue offsets count
  upwards from 0; the limit is an integer and the period is fractional (the code takes its
  ceiling).\<close>

record LTCDecoder =
  queue :: "LTCFrameExt list"
  queue_len :: nat
  queue_write_off :: nat
  biphase_state :: "8 word"
  biphase_prev :: "8 word"
  snd_to_biphase_state :: "8 word"
  snd_to_biphase_cnt :: nat
  snd_to_biphase_lmt :: int
  snd_to_biphase_period :: real
  snd_to_biphase_min :: ltcsnd_sample_t
  snd_to_biphase_max :: ltcsnd_sample_t
  decoder_sync_word :: "16 word"
  ltc_frame :: "8 word list"
  bit_cnt :: nat
  frame_start_off :: ltc_off_t
  frame_start_prev :: ltc_off_t
  biphase_tics :: "real list"
  biphase_tic :: nat

subsection \<open>C arithmetic\<close>

text \<open>The nearest integer, a tie going to the even one.\<close>

definition round_even :: "real \<Rightarrow> int" where
  "round_even y =
     (let n = \<lfloor>y\<rfloor>; r = y - of_int n
      in if r < 1 / 2 then n else if 1 / 2 < r then n + 1 else if even n then n else n + 1)"

text \<open>The binary exponent of a real \<open>x \<noteq> 0\<close>: the \<open>e\<close> with \<open>2 ^ e \<le> \<bar>x\<bar> < 2 ^ (e + 1)\<close>
  (lemma \<open>expo_bounds\<close>), computed from the number of bits of the integer part of \<open>\<bar>x\<bar>\<close>
  or of \<open>1 / \<bar>x\<bar>\<close>.\<close>

definition expo :: "real \<Rightarrow> int" where
  "expo x = (if 1 \<le> \<bar>x\<bar> then bitlen \<lfloor>\<bar>x\<bar>\<rfloor> - 1 else - bitlen (\<lceil>1 / \<bar>x\<bar>\<rceil> - 1))"

text \<open>The distance of neighbouring \<^verbatim>\<open>double\<close> numbers around \<open>x\<close>: 53 significant bits,
  and \<open>2 ^ - 1074\<close> in the subnormal range.\<close>

definition spacing :: "real \<Rightarrow> real" where
  "spacing x = 2 powi max (expo x - 52) (- 1074)"

text \<open>Rounding of a real to the nearest \<^verbatim>\<open>double\<close>, ties to even: the result of every
  floating operation and of every conversion of an integer to \<^verbatim>\<open>double\<close>.\<close>

definition dbl :: "real \<Rightarrow> real" where
  "dbl x = (if x = 0 then 0 else of_int (round_even (x / spacing x)) * spacing x)"

text \<open>Conversion of a floating value to an integer type: towards zero.\<close>

definition c_trunc :: "real \<Rightarrow> int" where
  "c_trunc x = (if 0 \<le> x then \<lfloor>x\<rfloor> else \<lceil>x\<rceil>)"

text \<open>Integer division of C: towards zero.\<close>

definition c_div :: "int \<Rightarrow> int \<Rightarrow> int" where
  "c_div a b = (if (a < 0) = (b < 0) then \<bar>a\<bar> div \<bar>b\<bar> else - (\<bar>a\<bar> div \<bar>b\<bar>))"

subsection \<open>calc_volume_db (lines 115-119)\<close>

text \<open>The function \<^verbatim>\<open>log10\<close> of the C library, on exact reals. It has no code
  equation: a volume is computed no further than to \<open>20 * log10 x\<close>.\<close>

definition log10 :: "real \<Rightarrow> real" where
  "log10 x = log 10 x"

declare log10_def [code del]

definition calc_volume_db :: "LTCDecoder \<Rightarrow> volume_db" where
  "calc_volume_db d =
     (if snd_to_biphase_max d \<le> snd_to_biphase_min d then MinusInfinity
      else Db (20 * log10 (real_of_int (uint (snd_to_biphase_max d) - uint (snd_to_biphase_min d)) / 255)))"

subsection \<open>parse_ltc (lines 121-263)\<close>

text \<open>Lines 124-133: at \<open>bit_cnt = 0\<close> the register is cleared and the start offset of
  the frame is set; the position of this bit is remembered. Line 128 converts
  \<^verbatim>\<open>posinfo\<close> to \<^verbatim>\<open>double\<close>, subtracts, and converts the difference back.\<close>

definition parse_begin :: "LTCDecoder \<Rightarrow> ltc_off_t \<Rightarrow> ltc_off_t \<Rightarrow> LTCDecoder" where
  "parse_begin d offset posinfo =
     (let d1 = (if bit_cnt d = 0
                then d\<lparr>ltc_frame := replicate (LTC_FRAME_BIT_COUNT div 8) 0,
                       frame_start_off :=
                         (if frame_start_prev d < 0
                          then c_trunc (dbl (dbl (real_of_int posinfo) - snd_to_biphase_period d))
                          else frame_start_prev d)\<rparr>
                else d)
      in d1\<lparr>frame_start_prev := offset + posinfo\<rparr>)"

text \<open>Lines 141-153, the body of the loop at index \<open>k\<close>: the byte moves down one bit and
  takes bit 0 of the next byte as its bit 7.\<close>

definition shift_byte :: "8 word \<Rightarrow> 8 word" where
  "shift_byte bi =
     (if bi AND 0x80 \<noteq> 0 then 0x40 else 0) OR
     (if bi AND 0x40 \<noteq> 0 then 0x20 else 0) OR
     (if bi AND 0x20 \<noteq> 0 then 0x10 else 0) OR
     (if bi AND 0x10 \<noteq> 0 then 0x08 else 0) OR
     (if bi AND 0x08 \<noteq> 0 then 0x04 else 0) OR
     (if bi AND 0x04 \<noteq> 0 then 0x02 else 0) OR
     (if bi AND 0x02 \<noteq> 0 then 0x01 else 0)"

definition shift_step :: "8 word list \<Rightarrow> nat \<Rightarrow> 8 word list" where
  "shift_step f k =
     (let bo = shift_byte (f ! k);
          bo' = (if k + 1 < LTC_FRAME_BIT_COUNT div 8
                 then bo OR (if (f ! (k + 1)) AND 0x01 \<noteq> 0 then 0x80 else 0x00)
                 else bo)
      in f[k := bo'])"

text \<open>Lines 140-154: the loop over \<open>k = 0, ..., 9\<close>, in place.\<close>

definition shift_frame :: "8 word list \<Rightarrow> 8 word list" where
  "shift_frame f = foldl shift_step f [0 ..< LTC_FRAME_BIT_COUNT div 8]"

text \<open>Lines 135-158.\<close>

definition parse_overflow :: "LTCDecoder \<Rightarrow> LTCDecoder" where
  "parse_overflow d =
     (if bit_cnt d \<ge> LTC_FRAME_BIT_COUNT
      then d\<lparr>ltc_frame := shift_frame (ltc_frame d),
             frame_start_off :=
               c_trunc (real_of_int (frame_start_off d)
                        + real_of_int \<lceil>snd_to_biphase_period d\<rceil>),
             bit_cnt := bit_cnt d - 1\<rparr>
      else d)"

text \<open>Lines 160-177: the bit enters the sync word and, below the frame length, the
  register at position \<open>bit_cnt\<close>.\<close>

definition parse_absorb :: "LTCDecoder \<Rightarrow> 8 word \<Rightarrow> LTCDecoder" where
  "parse_absorb d b =
     (let d1 = d\<lparr>decoder_sync_word := push_bit 1 (decoder_sync_word d)\<rparr>;
          d2 = (if b \<noteq> 0
                then (let d3 = d1\<lparr>decoder_sync_word := decoder_sync_word d1 OR 0x0001\<rparr>
                      in if bit_cnt d3 < LTC_FRAME_BIT_COUNT
                         then (let bit_num = bit_cnt d3 mod 8;
                                   bit_set = push_bit bit_num (1 :: 8 word);
                                   byte_num = bit_cnt d3 div 8
                               in d3\<lparr>ltc_frame :=
                                       (ltc_frame d3)[byte_num := (ltc_frame d3 ! byte_num) OR bit_set]\<rparr>)
                         else d3)
                else d1)
      in d2\<lparr>bit_cnt := bit_cnt d2 + 1\<rparr>)"

text \<open>Lines 191-194 and 247-250: the ring of tics read from the index \<open>biphase_tic\<close> on.\<close>

definition copy_tics :: "LTCDecoder \<Rightarrow> real list" where
  "copy_tics d =
     map (\<lambda>bc. biphase_tics d ! ((biphase_tic d + bc) mod LTC_FRAME_BIT_COUNT))
       [0 ..< LTC_FRAME_BIT_COUNT]"

text \<open>Lines 183-185 and 239-241: the slot that the next frame is written to.\<close>

definition queue_slot :: "LTCDecoder \<Rightarrow> nat" where
  "queue_slot d = (if queue_write_off d = queue_len d then 0 else queue_write_off d)"

text \<open>Lines 183-203: a forward frame goes to the queue.\<close>

definition push_forward :: "LTCDecoder \<Rightarrow> ltc_off_t \<Rightarrow> ltc_off_t \<Rightarrow> LTCDecoder" where
  "push_forward d offset posinfo =
     (let w = queue_slot d;
          e = (queue d ! w)\<lparr>
                ltc := ltc_frame d,
                ext_biphase_tics := copy_tics d,
                off_start := frame_start_off d,
                off_end := posinfo + offset - 1,
                reverse := 0,
                volume := calc_volume_db d,
                sample_min := snd_to_biphase_min d,
                sample_max := snd_to_biphase_max d\<rparr>
      in d\<lparr>queue := (queue d)[w := e], queue_write_off := w + 1\<rparr>)"

text \<open>Lines 179-207.\<close>

definition parse_forward :: "LTCDecoder \<Rightarrow> ltc_off_t \<Rightarrow> ltc_off_t \<Rightarrow> LTCDecoder" where
  "parse_forward d offset posinfo =
     (if decoder_sync_word d = 0x3FFD
      then (let d1 = (if bit_cnt d = LTC_FRAME_BIT_COUNT
                      then push_forward d offset posinfo else d)
            in d1\<lparr>bit_cnt := 0\<rparr>)
      else d)"

text \<open>Lines 218-228, the body of the first loop: the bits of a byte in reverse order.\<close>

definition swap_byte :: "8 word \<Rightarrow> 8 word" where
  "swap_byte bi =
     (if bi AND 0x80 \<noteq> 0 then 0x01 else 0) OR
     (if bi AND 0x40 \<noteq> 0 then 0x02 else 0) OR
     (if bi AND 0x20 \<noteq> 0 then 0x04 else 0) OR
     (if bi AND 0x10 \<noteq> 0 then 0x08 else 0) OR
     (if bi AND 0x08 \<noteq> 0 then 0x10 else 0) OR
     (if bi AND 0x04 \<noteq> 0 then 0x20 else 0) OR
     (if bi AND 0x02 \<noteq> 0 then 0x40 else 0) OR
     (if bi AND 0x01 \<noteq> 0 then 0x80 else 0)"

text \<open>Lines 217-229: the loop over all 10 bytes, in place.\<close>

definition swap_bits :: "8 word list \<Rightarrow> 8 word list" where
  "swap_bits f = foldl (\<lambda>f k. f[k := swap_byte (f ! k)]) f [0 ..< LTC_FRAME_BIT_COUNT div 8]"

text \<open>Lines 232-237: \<open>byte_num_max\<close> is now 8; the loop exchanges byte \<open>k\<close> and byte
  \<open>byte_num_max - 1 - k\<close> for \<open>k = 0, ..., 3\<close>.\<close>

definition swap_bytes :: "8 word list \<Rightarrow> 8 word list" where
  "swap_bytes f =
     (let byte_num_max = LTC_FRAME_BIT_COUNT div 8 - 2
      in foldl (\<lambda>f k. let bi = f ! k
                       in (f[k := f ! (byte_num_max - 1 - k)])[byte_num_max - 1 - k := bi])
           f [0 ..< byte_num_max div 2])"

text \<open>Lines 239-259: a reverse frame goes to the queue; the register has been reversed
  in place before. In lines 252 and 253 the integer on the left is converted to
  \<^verbatim>\<open>double\<close>, the product \<open>16 * period\<close> is subtracted, and the difference is converted
  back; in line 254 the integer \<open>(80 >> 3) * 8\<close> is multiplied with the period.\<close>

definition push_reverse :: "LTCDecoder \<Rightarrow> ltc_off_t \<Rightarrow> ltc_off_t \<Rightarrow> LTCDecoder" where
  "push_reverse d offset posinfo =
     (let w = queue_slot d;
          e = (queue d ! w)\<lparr>
                ltc := ltc_frame d,
                ext_biphase_tics := copy_tics d,
                off_start := c_trunc (dbl (dbl (real_of_int (frame_start_off d))
                                           - dbl (16 * snd_to_biphase_period d))),
                off_end := c_trunc (dbl (dbl (real_of_int (posinfo + offset - 1))
                                         - dbl (16 * snd_to_biphase_period d))),
                reverse := c_trunc (dbl (real (LTC_FRAME_BIT_COUNT div 8 * 8)
                                         * snd_to_biphase_period d)),
                volume := calc_volume_db d,
                sample_min := snd_to_biphase_min d,
                sample_max := snd_to_biphase_max d\<rparr>
      in d\<lparr>queue := (queue d)[w := e], queue_write_off := w + 1\<rparr>)"

text \<open>Lines 209-262.\<close>

definition parse_reverse :: "LTCDecoder \<Rightarrow> ltc_off_t \<Rightarrow> ltc_off_t \<Rightarrow> LTCDecoder" where
  "parse_reverse d offset posinfo =
     (if decoder_sync_word d = 0xBFFC
      then (let d1 = (if bit_cnt d = LTC_FRAME_BIT_COUNT
                      then push_reverse (d\<lparr>ltc_frame := swap_bytes (swap_bits (ltc_frame d))\<rparr>)
                             offset posinfo
                      else d)
            in d1\<lparr>bit_cnt := 0\<rparr>)
      else d)"

text \<open>Lines 124-177: the decoder once the bit is absorbed, before the sync word is
  compared.\<close>

definition parse_absorbed :: "LTCDecoder \<Rightarrow> 8 word \<Rightarrow> ltc_off_t \<Rightarrow> ltc_off_t \<Rightarrow> LTCDecoder" where
  "parse_absorbed d b offset posinfo =
     parse_absorb (parse_overflow (parse_begin d offset posinfo)) b"

text \<open>The whole function, its blocks in the order of the source.\<close>

definition parse_ltc :: "LTCDecoder \<Rightarrow> 8 word \<Rightarrow> ltc_off_t \<Rightarrow> ltc_off_t \<Rightarrow> LTCDecoder" where
  "parse_ltc d b offset posinfo =
     parse_reverse (parse_forward (parse_absorbed d b offset posinfo) offset posinfo)
       offset posinfo"

subsection \<open>biphase_decode2 (lines 265-283)\<close>

text \<open>Lines 269-271: the sample position handed on to \<open>parse_ltc\<close>. The count is
  converted to \<^verbatim>\<open>double\<close> for the comparison and for the difference; the compound
  assignment of line 270 converts \<^verbatim>\<open>pos\<close> to \<^verbatim>\<open>double\<close>, subtracts, and converts the
  result back.\<close>

definition tick_pos :: "LTCDecoder \<Rightarrow> ltc_off_t \<Rightarrow> ltc_off_t" where
  "tick_pos d pos =
     (if dbl (real (snd_to_biphase_cnt d)) \<le> dbl (2 * snd_to_biphase_period d)
      then c_trunc (dbl (dbl (real_of_int pos)
                         - dbl (snd_to_biphase_period d - dbl (real (snd_to_biphase_cnt d)))))
      else pos)"

definition biphase_decode2 :: "LTCDecoder \<Rightarrow> ltc_off_t \<Rightarrow> ltc_off_t \<Rightarrow> LTCDecoder" where
  "biphase_decode2 d offset pos =
     (let d1 = d\<lparr>biphase_tics := (biphase_tics d)[biphase_tic d := snd_to_biphase_period d]\<rparr>;
          d2 = d1\<lparr>biphase_tic := (biphase_tic d1 + 1) mod LTC_FRAME_BIT_COUNT\<rparr>;
          pos' = tick_pos d2 pos;
          d3 = (if snd_to_biphase_state d2 = biphase_prev d2
                then parse_ltc (d2\<lparr>biphase_state := 1\<rparr>) 0 offset pos'
                else (let d4 = d2\<lparr>biphase_state := 1 - biphase_state d2\<rparr>
                      in if biphase_state d4 = 1 then parse_ltc d4 1 offset pos' else d4))
      in d3\<lparr>biphase_prev := snd_to_biphase_state d3\<rparr>)"

subsection \<open>decode_ltc (lines 285-362)\<close>

text \<open>Lines 292-298: the envelope decays towards the centre and is widened to the
  sample.\<close>

definition track_envelope :: "LTCDecoder \<Rightarrow> ltcsnd_sample_t \<Rightarrow> LTCDecoder" where
  "track_envelope d s =
     (let d1 = d\<lparr>snd_to_biphase_min :=
                   word_of_int (SAMPLE_CENTER
                     - c_div ((SAMPLE_CENTER - uint (snd_to_biphase_min d)) * 15) 16)\<rparr>;
          d2 = d1\<lparr>snd_to_biphase_max :=
                   word_of_int (SAMPLE_CENTER
                     + c_div ((uint (snd_to_biphase_max d1) - SAMPLE_CENTER) * 15) 16)\<rparr>;
          d3 = (if s < snd_to_biphase_min d2 then d2\<lparr>snd_to_biphase_min := s\<rparr> else d2)
      in if s > snd_to_biphase_max d3 then d3\<lparr>snd_to_biphase_max := s\<rparr> else d3)"

text \<open>Lines 301-302.\<close>

definition min_threshold :: "LTCDecoder \<Rightarrow> ltcsnd_sample_t" where
  "min_threshold d =
     word_of_int (SAMPLE_CENTER - c_div ((SAMPLE_CENTER - uint (snd_to_biphase_min d)) * 8) 16)"

definition max_threshold :: "LTCDecoder \<Rightarrow> ltcsnd_sample_t" where
  "max_threshold d =
     word_of_int (SAMPLE_CENTER + c_div ((uint (snd_to_biphase_max d) - SAMPLE_CENTER) * 8) 16)"

text \<open>Lines 304-307: the test for a change of the two-level state.\<close>

definition state_change :: "LTCDecoder \<Rightarrow> ltcsnd_sample_t \<Rightarrow> bool" where
  "state_change d s \<longleftrightarrow>
     (snd_to_biphase_state d \<noteq> 0 \<and> s > max_threshold d) \<or>
     (\<not> snd_to_biphase_state d \<noteq> 0 \<and> s < min_threshold d)"

text \<open>Lines 310-322: the interval since the last change is long (two tics) or short
  (the count is doubled, one tic).\<close>

definition classify :: "LTCDecoder \<Rightarrow> ltc_off_t \<Rightarrow> ltc_off_t \<Rightarrow> LTCDecoder" where
  "classify d i posinfo =
     (if int (snd_to_biphase_cnt d) > snd_to_biphase_lmt d
      then biphase_decode2 (biphase_decode2 d i posinfo) i posinfo
      else biphase_decode2 (d\<lparr>snd_to_biphase_cnt := snd_to_biphase_cnt d * 2\<rparr>) i posinfo)"

text \<open>Line 334.\<close>

abbreviation min_silence_num_samples_threshold :: nat where
  "min_silence_num_samples_threshold \<equiv> 16"

text \<open>Lines 335-355: silence resets the parser; otherwise the period and the limit
  follow the count. Line 348 is a product, a sum and a quotient of \<^verbatim>\<open>double\<close> numbers,
  line 354 a product and a quotient whose result is converted to the integer limit.\<close>

definition track_period :: "LTCDecoder \<Rightarrow> LTCDecoder" where
  "track_period d =
     (if dbl (real (snd_to_biphase_cnt d)) > dbl (snd_to_biphase_period d * 4)
         \<and> snd_to_biphase_cnt d > min_silence_num_samples_threshold
      then d\<lparr>bit_cnt := 0\<rparr>
      else (let d1 = d\<lparr>snd_to_biphase_period :=
                         dbl (dbl (dbl (snd_to_biphase_period d * 3)
                                   + dbl (real (snd_to_biphase_cnt d))) / 4)\<rparr>
            in d1\<lparr>snd_to_biphase_lmt :=
                    c_trunc (dbl (dbl (snd_to_biphase_period d1 * 3) / 4))\<rparr>))"

text \<open>Lines 308-359: everything done at a change of the two-level state.\<close>

definition state_changed :: "LTCDecoder \<Rightarrow> ltc_off_t \<Rightarrow> ltc_off_t \<Rightarrow> LTCDecoder" where
  "state_changed d i posinfo =
     (let d1 = track_period (classify d i posinfo);
          d2 = d1\<lparr>snd_to_biphase_cnt := 0\<rparr>
      in d2\<lparr>snd_to_biphase_state := (if snd_to_biphase_state d2 = 0 then 1 else 0)\<rparr>)"

text \<open>Lines 289-360: the body of the loop for the sample \<open>s = sound[i]\<close>.\<close>

definition decode_sample :: "LTCDecoder \<Rightarrow> ltcsnd_sample_t \<Rightarrow> nat \<Rightarrow> ltc_off_t \<Rightarrow> LTCDecoder" where
  "decode_sample d s i posinfo =
     (let d1 = track_envelope d s;
          d2 = (if state_change d1 s then state_changed d1 (int i) posinfo else d1)
      in d2\<lparr>snd_to_biphase_cnt := snd_to_biphase_cnt d2 + 1\<rparr>)"

text \<open>Lines 288-361: the loop, from index \<open>i\<close>. The machine state is the decoder and
  the sample array, two separate objects; the result is \<open>None\<close> when the loop reads
  beyond the end of the array, which C leaves undefined. The parameter \<^verbatim>\<open>size\<close> of the
  source is \<open>sz\<close>.\<close>

function decode_loop ::
  "LTCDecoder \<Rightarrow> ltcsnd_sample_t list \<Rightarrow> nat \<Rightarrow> ltc_off_t \<Rightarrow> nat
    \<Rightarrow> (LTCDecoder \<times> ltcsnd_sample_t list) option" where
  "decode_loop d sound sz posinfo i =
     (if i < sz
      then (if i < length sound
            then decode_loop (decode_sample d (sound ! i) i posinfo) sound sz posinfo (i + 1)
            else None)
      else Some (d, sound))"
  by pat_completeness auto
termination
  by (relation "measure (\<lambda>(d, sound, sz, posinfo, i). sz - i)") auto

declare decode_loop.simps [simp del]

definition decode_ltc ::
  "LTCDecoder \<Rightarrow> ltcsnd_sample_t list \<Rightarrow> nat \<Rightarrow> ltc_off_t
    \<Rightarrow> (LTCDecoder \<times> ltcsnd_sample_t list) option" where
  "decode_ltc d sound sz posinfo = decode_loop d sound sz posinfo 0"


subsection \<open>Notions used in the statements\<close>


text \<open>The ordering of the envelope around the centre.\<close>

definition envelope_ok :: "LTCDecoder \<Rightarrow> bool" where
  "envelope_ok d \<longleftrightarrow> snd_to_biphase_min d \<le> 128 \<and> 128 \<le> snd_to_biphase_max d"

text \<open>The queue as allocated: \<open>queue_len\<close> slots, at least one, and a write offset that
  is at most \<open>queue_len\<close>.\<close>

definition queue_ok :: "LTCDecoder \<Rightarrow> bool" where
  "queue_ok d \<longleftrightarrow>
     0 < queue_len d \<and> length (queue d) = queue_len d \<and> queue_write_off d \<le> queue_len d"

text \<open>The period estimate between two samples of a run: it is not negative, and as soon
  as more than two bits are in it is at least 1/4. Before the first sample nothing has
  been counted and no bit is in.\<close>

definition period_tracked :: "LTCDecoder \<Rightarrow> bool" where
  "period_tracked d \<longleftrightarrow>
     0 \<le> snd_to_biphase_period d \<and>
     (if snd_to_biphase_cnt d = 0 then bit_cnt d = 0
      else bit_cnt d \<le> 2 \<or> 1 / 4 \<le> snd_to_biphase_period d)"

text \<open>The same at a tic, where one bit more may be in.\<close>

definition tic_ready :: "LTCDecoder \<Rightarrow> bool" where
  "tic_ready d \<longleftrightarrow> bit_cnt d \<le> 3 \<or> 1 / 4 \<le> snd_to_biphase_period d"

subsection \<open>Concrete decoders and sample blocks\<close>

text \<open>A queue slot that was never written, and a decoder with two such slots, an idle
  parser, an envelope at the centre and a period of 24 samples (1920 samples per frame).\<close>

definition empty_slot :: LTCFrameExt where
  "empty_slot = \<lparr>ltc = replicate 10 0, off_start = 0, off_end = 0, reverse = 0,
     ext_biphase_tics = replicate 80 0, sample_min = 0, sample_max = 0, volume = MinusInfinity\<rparr>"

definition start_decoder :: LTCDecoder where
  "start_decoder = \<lparr>queue = [empty_slot, empty_slot], queue_len = 2, queue_write_off = 0,
     biphase_state = 1, biphase_prev = 0, snd_to_biphase_state = 0, snd_to_biphase_cnt = 0,
     snd_to_biphase_lmt = 18, snd_to_biphase_period = 24, snd_to_biphase_min = 128,
     snd_to_biphase_max = 128, decoder_sync_word = 0, ltc_frame = replicate 10 0, bit_cnt = 0,
     frame_start_off = 0, frame_start_prev = - 1, biphase_tics = replicate 80 0, biphase_tic = 0\<rparr>"

text \<open>One bit before a forward frame is complete: 79 bits are in, and the sync word
  becomes \<open>0x3FFD\<close> with the bit 1.\<close>

definition forward_ready :: LTCDecoder where
  "forward_ready = start_decoder\<lparr>bit_cnt := 79, decoder_sync_word := 0x9FFE\<rparr>"

text \<open>One bit before a reverse frame is complete: the sync word becomes \<open>0xBFFC\<close> with
  the bit 0.\<close>

definition reverse_ready :: LTCDecoder where
  "reverse_ready = start_decoder\<lparr>bit_cnt := 79, decoder_sync_word := 0x5FFE\<rparr>"

text \<open>Decoders whose period is a \<^verbatim>\<open>double\<close> with a long fraction: the \<^verbatim>\<open>double\<close> next
  to 0.3, which is \<open>5404319552844595 / 2 ^ 54\<close>, on the reverse frame; the period
  \<open>20 + 2 ^ - 40\<close> on the reverse frame that ends at position 172800000; the \<^verbatim>\<open>double\<close>
  next to 15.666666666666666, which is \<open>8819549270267221 / 2 ^ 49\<close>, one sample after a
  change of state; the period \<open>2 + 2 ^ - 40\<close> two samples after a change of state.\<close>

definition reverse_ready_fraction :: LTCDecoder where
  "reverse_ready_fraction =
     reverse_ready\<lparr>snd_to_biphase_period := 5404319552844595 / 18014398509481984\<rparr>"

definition reverse_ready_far :: LTCDecoder where
  "reverse_ready_far = reverse_ready\<lparr>snd_to_biphase_period := 21990232555521 / 1099511627776\<rparr>"

definition period_fraction :: LTCDecoder where
  "period_fraction = start_decoder\<lparr>snd_to_biphase_cnt := 1,
     snd_to_biphase_period := 8819549270267221 / 562949953421312\<rparr>"

definition period_above_two :: LTCDecoder where
  "period_above_two = start_decoder\<lparr>snd_to_biphase_cnt := 2,
     snd_to_biphase_period := 2199023255553 / 1099511627776\<rparr>"


text \<open>A change of state 20 samples after the last one (long: the limit is 18), and one
  after 10 samples (short).\<close>

definition long_interval :: LTCDecoder where
  "long_interval = start_decoder\<lparr>snd_to_biphase_cnt := 20\<rparr>"

definition short_interval :: LTCDecoder where
  "short_interval = start_decoder\<lparr>snd_to_biphase_cnt := 10\<rparr>"

text \<open>A change of state after 100 samples, more than four periods.\<close>

definition silent_interval :: LTCDecoder where
  "silent_interval = start_decoder\<lparr>snd_to_biphase_cnt := 100\<rparr>"

text \<open>The write offset at the end of the queue.\<close>

definition queue_at_end :: LTCDecoder where
  "queue_at_end = forward_ready\<lparr>queue_write_off := 2\<rparr>"

text \<open>The loop of \<open>decode_ltc\<close> over a list of samples that starts at index \<open>i\<close> of the
  array; \<open>decode_loop\<close> is this function on the samples from \<open>i\<close> on
  (lemma \<open>decode_loop_samples\<close>).\<close>

fun decode_samples :: "LTCDecoder \<Rightarrow> ltcsnd_sample_t list \<Rightarrow> nat \<Rightarrow> ltc_off_t \<Rightarrow> LTCDecoder" where
  "decode_samples d [] i posinfo = d"
| "decode_samples d (s # ss) i posinfo =
     decode_samples (decode_sample d s i posinfo) ss (i + 1) posinfo"

text \<open>A recording of one frame at a small amplitude, levels 129 and 127, two samples
  to a bit. A decoder with one queue slot and the period 1 hears five samples of lead-in;
  the edge at sample 5 ends the lead-in, which the idle decoder takes for the first two
  bits (both 0) of a frame. Then come 64 bits 0 (one edge each), twelve bits 1 (two edges
  each), a bit 0, a bit 1, and the sample that ends the last bit: 80 bits that end in the
  sync word.\<close>

definition tape_decoder :: LTCDecoder where
  "tape_decoder = \<lparr>queue = [empty_slot], queue_len = 1, queue_write_off = 0, biphase_state = 1,
     biphase_prev = 0, snd_to_biphase_state = 0, snd_to_biphase_cnt = 0, snd_to_biphase_lmt = 0,
     snd_to_biphase_period = 1, snd_to_biphase_min = 128, snd_to_biphase_max = 128,
     decoder_sync_word = 0, ltc_frame = replicate 10 0, bit_cnt = 0, frame_start_off = 0,
     frame_start_prev = - 1, biphase_tics = replicate 80 0, biphase_tic = 0\<rparr>"

definition tape_lead_in :: "ltcsnd_sample_t list" where
  "tape_lead_in = [129, 129, 129, 129, 129, 127]"

definition tape_sync :: "ltcsnd_sample_t list" where
  "tape_sync = [129, 127, 129, 127, 129, 127, 129, 127, 129, 127, 129, 127, 129, 127, 129, 127,
     129, 127, 129, 127, 129, 127, 129, 127, 127, 129, 127, 129]"

definition tape :: "ltcsnd_sample_t list" where
  "tape = tape_lead_in @ concat (replicate 32 [127, 129, 129, 127]) @ tape_sync"

text \<open>The same lead-in followed at once by the twelve bits 1, the bit 0 and the bit 1:
  the sync word is complete after 16 bits.\<close>

definition early_sync_tape :: "ltcsnd_sample_t list" where
  "early_sync_tape = tape_lead_in @ tape_sync"

text \<open>The decoder on the tape after the lead-in and \<open>2 * n\<close> further bits 0: the ring of
  tics, and the whole decoder.\<close>

primrec zero_ring :: "nat \<Rightarrow> real list" where
  "zero_ring 0 = (replicate 80 0)[0 := 1, 1 := 1]"
| "zero_ring (Suc n) =
     (zero_ring n)[(2 + 4 * n) mod 80 := 2, (3 + 4 * n) mod 80 := 2,
                   (4 + 4 * n) mod 80 := 2, (5 + 4 * n) mod 80 := 2]"

definition tape_zeros :: "nat \<Rightarrow> LTCDecoder" where
  "tape_zeros n = \<lparr>queue = [empty_slot], queue_len = 1, queue_write_off = 0, biphase_state = 1,
     biphase_prev = 0, snd_to_biphase_state = 1, snd_to_biphase_cnt = 1, snd_to_biphase_lmt = 1,
     snd_to_biphase_period = 2, snd_to_biphase_min = 127, snd_to_biphase_max = 128,
     decoder_sync_word = 0, ltc_frame = replicate 10 0, bit_cnt = 2 + 2 * n, frame_start_off = - 1,
     frame_start_prev = 5 + 4 * int n, biphase_tics = zero_ring n,
     biphase_tic = (2 + 4 * n) mod 80\<rparr>"

text \<open>The decoder at the end of the tape, with the frame in its queue.\<close>

definition tape_end :: LTCDecoder where
  "tape_end = \<lparr>queue = [\<lparr>ltc = [0, 0, 0, 0, 0, 0, 0, 0, 252, 191], off_start = - 1, off_end = 160,
       reverse = 0, ext_biphase_tics = replicate 80 2, sample_min = 128, sample_max = 129,
       volume = Db (20 * log10 (1 / 255))\<rparr>],
     queue_len = 1, queue_write_off = 1, biphase_state = 1,
     biphase_prev = 1, snd_to_biphase_state = 0, snd_to_biphase_cnt = 1, snd_to_biphase_lmt = 1,
     snd_to_biphase_period = 2, snd_to_biphase_min = 128, snd_to_biphase_max = 129,
     decoder_sync_word = 0x3FFD, ltc_frame = [0, 0, 0, 0, 0, 0, 0, 0, 252, 191], bit_cnt = 0,
     frame_start_off = - 1, frame_start_prev = 161, biphase_tics = replicate 80 2,
     biphase_tic = 78\<rparr>"

section \<open>Rounding to the nearest double\<close>

text \<open>\<open>round_even\<close> keeps whole numbers, is monotone and odd. \<open>expo\<close> is the binary
  exponent. \<open>dbl\<close> is odd and monotone, and it keeps every number \<open>m * 2 ^ k\<close> with
  \<open>\<bar>m\<bar> < 2 ^ 53\<close> and \<open>k \<ge> - 1074\<close>: the numbers that a \<^verbatim>\<open>double\<close> can hold.\<close>

lemma round_even_of_int [simp]: "round_even (of_int n) = n"
  by (simp add: round_even_def)

lemma round_even_near: "\<bar>y - of_int (round_even y)\<bar> \<le> 1 / 2"
  unfolding round_even_def Let_def by (simp; linarith)

lemma round_even_mono:
  assumes "x \<le> y"
  shows "round_even x \<le> round_even y"
proof (rule ccontr)
  assume "\<not> round_even x \<le> round_even y"
  then have "round_even y + 1 \<le> round_even x" by simp
  then have "real_of_int (round_even y) + 1 \<le> of_int (round_even x)"
    by linarith
  with round_even_near [of x] round_even_near [of y] assms have "x = y"
    by linarith
  with \<open>\<not> round_even x \<le> round_even y\<close> show False by simp
qed

lemma round_even_minus: "round_even (- y) = - round_even y"
proof (cases "y = of_int \<lfloor>y\<rfloor>")
  case True
  then obtain n where "y = of_int n" ..
  then have "- y = of_int (- n)" by simp
  then show ?thesis unfolding \<open>y = of_int n\<close> by (metis round_even_of_int)
next
  case False
  then have fl: "\<lfloor>- y\<rfloor> = - \<lfloor>y\<rfloor> - 1"
    by (metis ceiling_altdef floor_minus add_diff_cancel_right' minus_diff_eq diff_minus_eq_add
        uminus_add_conv_diff)
  have "even (- \<lfloor>y\<rfloor> - 1) \<longleftrightarrow> odd \<lfloor>y\<rfloor>" by simp
  with False show ?thesis
    unfolding round_even_def Let_def fl by (auto; linarith?)
qed

lemma expo_bounds:
  assumes "x \<noteq> 0"
  shows "2 powi expo x \<le> \<bar>x\<bar>" and "\<bar>x\<bar> < 2 powi (expo x + 1)"
proof -
  have "2 powi expo x \<le> \<bar>x\<bar> \<and> \<bar>x\<bar> < 2 powi (expo x + 1)"
  proof (cases "1 \<le> \<bar>x\<bar>")
    case True
    let ?n = "\<lfloor>\<bar>x\<bar>\<rfloor>"
    have n: "0 < ?n" using True by simp
    have b: "1 \<le> bitlen ?n" using n by (simp add: bitlen_alt_def)
    from bitlen_bounds [OF n] have lo: "2 ^ nat (bitlen ?n - 1) \<le> ?n"
      and hi: "?n < 2 ^ nat (bitlen ?n)" by simp_all
    have "(2 :: real) powi (bitlen ?n - 1) = of_int (2 ^ nat (bitlen ?n - 1))"
      using b by (simp add: power_int_nonneg_exp)
    also have "\<dots> \<le> of_int ?n" using lo by (simp only: of_int_le_iff)
    also have "\<dots> \<le> \<bar>x\<bar>" by simp
    finally have 1: "2 powi (bitlen ?n - 1) \<le> \<bar>x\<bar>" .
    have "?n + 1 \<le> 2 ^ nat (bitlen ?n)" using hi by simp
    then have "real_of_int (?n + 1) \<le> of_int (2 ^ nat (bitlen ?n))"
      by (simp only: of_int_le_iff)
    then have "real_of_int ?n + 1 \<le> 2 ^ nat (bitlen ?n)" by simp
    moreover have "\<bar>x\<bar> < real_of_int ?n + 1" by linarith
    ultimately have "\<bar>x\<bar> < 2 ^ nat (bitlen ?n)" by linarith
    also have "\<dots> = 2 powi (bitlen ?n)"
      using b by (simp add: power_int_nonneg_exp)
    finally have "\<bar>x\<bar> < 2 powi (bitlen ?n - 1 + 1)" by simp
    with 1 True show ?thesis by (simp add: expo_def)
  next
    case False
    let ?y = "1 / \<bar>x\<bar>"
    let ?m = "\<lceil>?y\<rceil> - 1"
    have x: "0 < \<bar>x\<bar>" "\<bar>x\<bar> < 1" using assms False by simp_all
    then have y: "1 < ?y" by simp
    then have m: "0 < ?m" by (simp; linarith?)
    have b: "1 \<le> bitlen ?m" using m by (simp add: bitlen_alt_def)
    let ?b = "bitlen ?m"
    from bitlen_bounds [OF m] have lo: "2 ^ nat (?b - 1) \<le> ?m"
      and hi: "?m < 2 ^ nat ?b" by simp_all
    have "real_of_int (2 ^ nat (?b - 1)) \<le> of_int ?m" using lo by (simp only: of_int_le_iff)
    moreover have "of_int ?m < ?y" by (simp; linarith?)
    ultimately have "2 ^ nat (?b - 1) < ?y" by simp
    then have "\<bar>x\<bar> * 2 ^ nat (?b - 1) < 1"
      using x by (simp add: field_simps)
    then have "\<bar>x\<bar> < 1 / 2 ^ nat (?b - 1)"
      by (simp add: field_simps)
    also have "\<dots> = 2 powi (- ?b + 1)"
      using b by (simp add: power_int_def nat_diff_distrib field_simps)
    finally have 2: "\<bar>x\<bar> < 2 powi (- ?b + 1)" .
    have "?m + 1 \<le> 2 ^ nat ?b" using hi by simp
    then have "real_of_int (?m + 1) \<le> of_int (2 ^ nat ?b)" by (simp only: of_int_le_iff)
    then have "real_of_int \<lceil>?y\<rceil> \<le> 2 ^ nat ?b" by simp
    moreover have "?y \<le> real_of_int \<lceil>?y\<rceil>" by linarith
    ultimately have "?y \<le> 2 ^ nat ?b" by linarith
    then have "1 \<le> \<bar>x\<bar> * 2 ^ nat ?b" using x by (simp add: field_simps)
    then have "1 / 2 ^ nat ?b \<le> \<bar>x\<bar>" by (simp add: field_simps)
    moreover have "(2 :: real) powi (- ?b) = 1 / 2 ^ nat ?b"
      using b by (simp add: power_int_def field_simps)
    ultimately have "2 powi (- ?b) \<le> \<bar>x\<bar>" by simp
    with 2 False show ?thesis by (simp add: expo_def)
  qed
  then show "2 powi expo x \<le> \<bar>x\<bar>" and "\<bar>x\<bar> < 2 powi (expo x + 1)" by simp_all
qed

lemma pow2_less_imp: "(2 :: real) powi a < 2 powi b \<Longrightarrow> a < b"
  by (rule ccontr) (simp add: not_less power_int_increasing not_le [symmetric])

lemma expo_le_iff:
  assumes "x \<noteq> 0"
  shows "2 powi j \<le> \<bar>x\<bar> \<Longrightarrow> j \<le> expo x" and "\<bar>x\<bar> < 2 powi j \<Longrightarrow> expo x < j"
    and "\<bar>x\<bar> \<le> 2 powi j \<Longrightarrow> expo x \<le> j"
proof -
  show "j \<le> expo x" if "2 powi j \<le> \<bar>x\<bar>"
  proof -
    from that expo_bounds(2) [OF assms] have "(2 :: real) powi j < 2 powi (expo x + 1)" by simp
    then show ?thesis using pow2_less_imp by fastforce
  qed
  show "expo x < j" if "\<bar>x\<bar> < 2 powi j"
  proof -
    from that expo_bounds(1) [OF assms] have "(2 :: real) powi expo x < 2 powi j" by simp
    then show ?thesis by (rule pow2_less_imp)
  qed
  show "expo x \<le> j" if "\<bar>x\<bar> \<le> 2 powi j"
  proof -
    have "(2 :: real) powi j < 2 powi (j + 1)" by (simp add: power_int_strict_increasing)
    with that expo_bounds(1) [OF assms] have "(2 :: real) powi expo x < 2 powi (j + 1)" by simp
    then show ?thesis using pow2_less_imp by fastforce
  qed
qed

lemma expo_minus [simp]: "expo (- x) = expo x"
  by (simp add: expo_def)

lemma spacing_minus [simp]: "spacing (- x) = spacing x"
  by (simp add: spacing_def)

lemma spacing_pos [simp]: "0 < spacing x"
  by (simp add: spacing_def)

lemma spacing_nonzero [simp]: "spacing x \<noteq> 0"
  by (simp add: spacing_def)

lemma dbl_0 [simp]: "dbl 0 = 0"
  by (simp add: dbl_def)

lemma dbl_minus [simp]: "dbl (- x) = - dbl x"
  by (simp add: dbl_def round_even_minus)

lemma pow2_on_grid:
  assumes "max (expo x - 52) (- 1074) \<le> j"
  shows "2 powi j / spacing x = of_int (2 ^ nat (j - max (expo x - 52) (- 1074)))"
proof -
  let ?g = "max (expo x - 52) (- 1074)"
  have "(2 :: real) powi j / 2 powi ?g = 2 powi (j - ?g)"
    by (simp add: power_int_diff)
  also have "\<dots> = 2 ^ nat (j - ?g)"
    using assms by (simp add: power_int_nonneg_exp)
  finally show ?thesis by (simp add: spacing_def)
qed

lemma dbl_grid_le:
  assumes "a / spacing x = of_int j" and "a \<le> x"
  shows "a \<le> dbl x"
proof (cases "x = 0")
  case True
  with assms show ?thesis by simp
next
  case False
  have "a / spacing x \<le> x / spacing x"
    using assms(2) by (intro divide_right_mono less_imp_le [OF spacing_pos])
  then have "round_even (a / spacing x) \<le> round_even (x / spacing x)"
    by (rule round_even_mono)
  then have "j \<le> round_even (x / spacing x)"
    by (simp add: assms(1))
  then have "real_of_int j * spacing x \<le> of_int (round_even (x / spacing x)) * spacing x"
    by (simp add: mult_right_mono)
  moreover have "a = of_int j * spacing x"
    unfolding assms(1) [symmetric] by simp
  ultimately show ?thesis using False by (simp add: dbl_def)
qed

lemma dbl_grid_ge:
  assumes "a / spacing x = of_int j" and "x \<le> a"
  shows "dbl x \<le> a"
proof (cases "x = 0")
  case True
  with assms show ?thesis by simp
next
  case False
  have "x / spacing x \<le> a / spacing x"
    using assms(2) by (intro divide_right_mono less_imp_le [OF spacing_pos])
  then have "round_even (x / spacing x) \<le> round_even (a / spacing x)"
    by (rule round_even_mono)
  then have "round_even (x / spacing x) \<le> j"
    by (simp add: assms(1))
  then have "of_int (round_even (x / spacing x)) * spacing x \<le> real_of_int j * spacing x"
    by (simp add: mult_right_mono)
  moreover have "a = of_int j * spacing x"
    unfolding assms(1) [symmetric] by simp
  ultimately show ?thesis using False by (simp add: dbl_def)
qed

lemma dbl_nonneg: "0 \<le> x \<Longrightarrow> 0 \<le> dbl x"
  using dbl_grid_le [of 0 x 0] by simp

lemma dbl_nonpos: "x \<le> 0 \<Longrightarrow> dbl x \<le> 0"
  using dbl_grid_ge [of 0 x 0] by simp

lemma dbl_ge_pow2:
  assumes "2 powi j \<le> x" and "- 1074 \<le> j"
  shows "2 powi j \<le> dbl x"
proof -
  have pos: "0 < x" using assms(1) by (smt (verit) zero_less_power_int)
  then have x: "x \<noteq> 0" "\<bar>x\<bar> = x" by simp_all
  have je: "j \<le> expo x" using expo_le_iff(1) [OF x(1), of j] assms(1) x(2) by simp
  have "max (expo x - 52) (- 1074) \<le> expo x" using je assms(2) by simp
  from pow2_on_grid [OF this] have "2 powi expo x \<le> dbl x"
    using expo_bounds(1) [OF x(1)] x(2) by (intro dbl_grid_le) simp_all
  moreover have "(2 :: real) powi j \<le> 2 powi expo x"
    using je by (simp add: power_int_increasing)
  ultimately show ?thesis by simp
qed

lemma dbl_le_pow2:
  assumes "0 < x" and "x \<le> 2 powi j" and "- 1074 \<le> j"
  shows "dbl x \<le> 2 powi j"
proof -
  have x: "x \<noteq> 0" "\<bar>x\<bar> = x" using assms(1) by simp_all
  have "expo x \<le> j" using expo_le_iff(3) [OF x(1), of j] assms(2) x(2) by simp
  then have "max (expo x - 52) (- 1074) \<le> j" using assms(3) by simp
  from pow2_on_grid [OF this] show ?thesis
    using assms(2) by (intro dbl_grid_ge) simp_all
qed

lemma dbl_mono_pos:
  assumes "0 < x" and "x \<le> y"
  shows "dbl x \<le> dbl y"
proof -
  have x: "x \<noteq> 0" "\<bar>x\<bar> = x" and y: "y \<noteq> 0" "\<bar>y\<bar> = y" using assms by simp_all
  have "2 powi expo x \<le> \<bar>y\<bar>" using expo_bounds(1) [OF x(1)] x(2) y(2) assms(2) by simp
  then have le: "expo x \<le> expo y" by (rule expo_le_iff(1) [OF y(1)])
  show ?thesis
  proof (cases "max (expo x - 52) (- 1074) = max (expo y - 52) (- 1074)")
    case True
    then have s: "spacing x = spacing y" by (simp add: spacing_def)
    have "x / spacing y \<le> y / spacing y" using assms(2) by (intro divide_right_mono less_imp_le [OF spacing_pos])
    then have "round_even (x / spacing y) \<le> round_even (y / spacing y)"
      by (rule round_even_mono)
    then have "real_of_int (round_even (x / spacing y)) * spacing y
        \<le> of_int (round_even (y / spacing y)) * spacing y"
      by (simp add: mult_right_mono)
    then show ?thesis using x(1) y(1) by (simp add: dbl_def s)
  next
    case False
    with le have lt: "expo x < expo y" and big: "- 1022 < expo y" by auto
    have "x < 2 powi (expo x + 1)" using expo_bounds(2) [OF x(1)] x(2) by simp
    also have "\<dots> \<le> 2 powi expo y" using lt by (simp add: power_int_increasing)
    finally have "x \<le> 2 powi expo y" by simp
    then have "dbl x \<le> 2 powi expo y" using assms(1) big by (intro dbl_le_pow2) simp_all
    moreover have "2 powi expo y \<le> dbl y"
      using expo_bounds(1) [OF y(1)] y(2) big by (intro dbl_ge_pow2) simp_all
    ultimately show ?thesis by simp
  qed
qed

lemma dbl_mono:
  assumes "x \<le> y"
  shows "dbl x \<le> dbl y"
proof -
  consider "0 < x" | "x \<le> 0" "0 \<le> y" | "y < 0" by linarith
  then show ?thesis
  proof cases
    case 1
    then show ?thesis using assms by (rule dbl_mono_pos)
  next
    case 2
    then show ?thesis using dbl_nonneg [of y] dbl_nonpos [of x] by simp
  next
    case 3
    then have "dbl (- y) \<le> dbl (- x)" using assms by (intro dbl_mono_pos) simp_all
    then show ?thesis by (simp add: dbl_minus)
  qed
qed

lemma dbl_exact:
  assumes "\<bar>m\<bar> < 2 ^ 53" and "- 1074 \<le> k"
  shows "dbl (of_int m * 2 powi k) = of_int m * 2 powi k"
proof (cases "m = 0")
  case True
  then show ?thesis by simp
next
  case False
  let ?x = "real_of_int m * 2 powi k"
  have x: "?x \<noteq> 0" using False by simp
  have "\<bar>?x\<bar> = of_int \<bar>m\<bar> * 2 powi k" by (simp add: abs_mult)
  also have "\<dots> < of_int (2 ^ 53) * 2 powi k"
    using assms(1) by (intro mult_strict_right_mono) (simp_all only: of_int_less_iff zero_less_power_int zero_less_numeral)
  also have "\<dots> = 2 powi (53 + k)" by (simp add: power_int_add)
  finally have "expo ?x < 53 + k" by (rule expo_le_iff(2) [OF x])
  then have g: "max (expo ?x - 52) (- 1074) \<le> k" using assms(2) by simp
  have "?x / spacing ?x = of_int m * (2 powi k / spacing ?x)" by simp
  also have "\<dots> = of_int (m * 2 ^ nat (k - max (expo ?x - 52) (- 1074)))"
    by (simp add: pow2_on_grid [OF g])
  finally have "?x / spacing ?x = of_int (m * 2 ^ nat (k - max (expo ?x - 52) (- 1074)))" .
  then have "?x \<le> dbl ?x" "dbl ?x \<le> ?x"
    by (rule dbl_grid_le dbl_grid_ge, simp)+
  then show ?thesis by simp
qed

lemma dbl_of_int: "\<bar>m\<bar> < 2 ^ 53 \<Longrightarrow> dbl (of_int m) = of_int m"
  using dbl_exact [of m 0] by simp

lemma dbl_numeral [simp]: "(numeral n :: int) < 2 ^ 53 \<Longrightarrow> dbl (numeral n) = numeral n"
  using dbl_of_int [of "numeral n"] by simp

lemma dbl_1 [simp]: "dbl 1 = 1"
  using dbl_of_int [of 1] by simp

lemma dbl_of_nat: "n < 2 ^ 53 \<Longrightarrow> dbl (real n) = real n"
  using dbl_of_int [of "int n"] by simp

lemma dbl_half [simp]: "(numeral n :: int) < 2 ^ 53 \<Longrightarrow> dbl (numeral n / 2) = numeral n / 2"
  using dbl_exact [of "numeral n" "- 1"] by (simp add: power_int_minus field_simps)

lemma dbl_quarter: "dbl (1 / 4) = 1 / 4"
  using dbl_exact [of 1 "- 2"] by (simp add: power_int_minus field_simps)

lemma dbl_quarters [simp]:
  "(numeral n :: int) < 2 ^ 53 \<Longrightarrow> dbl (numeral n / 4) = numeral n / 4"
  using dbl_exact [of "numeral n" "- 2"] by (simp add: power_int_minus field_simps)

lemma dbl_near: "\<bar>dbl x - x\<bar> \<le> spacing x / 2"
proof (cases "x = 0")
  case True
  then show ?thesis by (simp add: less_imp_le)
next
  case False
  have "dbl x - x = (of_int (round_even (x / spacing x)) - x / spacing x) * spacing x"
    using False by (simp add: dbl_def left_diff_distrib)
  then have "\<bar>dbl x - x\<bar> = \<bar>of_int (round_even (x / spacing x)) - x / spacing x\<bar> * spacing x"
    by (simp add: abs_mult less_imp_le)
  also have "\<dots> \<le> 1 / 2 * spacing x"
    using round_even_near [of "x / spacing x"]
    by (intro mult_right_mono) (simp_all add: abs_minus_commute less_imp_le)
  finally show ?thesis by simp
qed

lemma round_even_bound:
  assumes "\<bar>y\<bar> \<le> of_int N"
  shows "\<bar>round_even y\<bar> \<le> N"
proof -
  have "round_even y \<le> round_even (of_int N)" "round_even (of_int (- N)) \<le> round_even y"
    using assms by (intro round_even_mono; simp; linarith)+
  then show ?thesis by (simp add: round_even_minus)
qed

lemma dbl_idem: "dbl (dbl x) = dbl x"
proof (cases "x = 0")
  case True
  then show ?thesis by simp
next
  case False
  define g where "g = max (expo x - 52) (- 1074)"
  define m where "m = round_even (x / spacing x)"
  have g: "- 1074 \<le> g" "expo x + 1 - g \<le> 53" by (simp_all add: g_def)
  have d: "dbl x = of_int m * 2 powi g"
    using False by (simp add: dbl_def spacing_def m_def g_def)
  have "\<bar>x / spacing x\<bar> = \<bar>x\<bar> / 2 powi g"
    by (simp add: spacing_def g_def)
  also have "\<dots> \<le> 2 powi (expo x + 1) / 2 powi g"
    using expo_bounds(2) [OF False] by (intro divide_right_mono) simp_all
  also have "\<dots> = 2 powi (expo x + 1 - g)"
    by (simp add: power_int_diff)
  also have "\<dots> \<le> 2 powi 53"
    using g(2) by (intro power_int_increasing) simp_all
  finally have "\<bar>x / spacing x\<bar> \<le> of_int (2 ^ 53)" by simp
  then have m: "\<bar>m\<bar> \<le> 2 ^ 53" unfolding m_def by (rule round_even_bound)
  show ?thesis
  proof (cases "\<bar>m\<bar> < 2 ^ 53")
    case True
    then show ?thesis unfolding d using g(1) by (rule dbl_exact)
  next
    case False
    with m have "m = 2 ^ 53 \<or> m = - (2 ^ 53)" by linarith
    then have "real_of_int m * 2 powi g = of_int (m div 2) * 2 powi (g + 1)"
      by (auto simp: power_int_add)
    moreover have "\<bar>m div 2\<bar> < 2 ^ 53"
      using \<open>m = 2 ^ 53 \<or> m = - (2 ^ 53)\<close> by auto
    then have "dbl (of_int (m div 2) * 2 powi (g + 1)) = of_int (m div 2) * 2 powi (g + 1)"
      using g(1) by (intro dbl_exact) simp_all
    ultimately show ?thesis unfolding d by simp
  qed
qed

lemma expo_unique:
  assumes "2 powi e \<le> \<bar>x\<bar>" and "\<bar>x\<bar> < 2 powi (e + 1)"
  shows "expo x = e"
proof -
  have x: "x \<noteq> 0" using assms(1) by (smt (verit) zero_less_power_int abs_zero)
  from expo_le_iff(1) [OF x assms(1)] expo_le_iff(2) [OF x assms(2)] show ?thesis by simp
qed

lemma expo_scale: 
  assumes "x \<noteq> 0"
  shows "expo (x * 2 ^ n) = expo x + int n"
proof (rule expo_unique)
  have p: "(2 :: real) powi (expo x + int n) = 2 powi expo x * 2 ^ n"
    by (simp add: power_int_add)
  show "2 powi (expo x + int n) \<le> \<bar>x * 2 ^ n\<bar>"
    using expo_bounds(1) [OF assms] by (simp add: p abs_mult)
  have "(2 :: real) powi (expo x + int n + 1) = 2 powi (expo x + 1) * 2 ^ n"
    by (simp add: power_int_add)
  then show "\<bar>x * 2 ^ n\<bar> < 2 powi (expo x + int n + 1)"
    using expo_bounds(2) [OF assms] by (simp add: abs_mult)
qed

lemma dbl_scale:
  assumes "dbl x = x"
  shows "dbl (x * 2 ^ n) = x * 2 ^ n"
proof (cases "x = 0")
  case True
  then show ?thesis by simp
next
  case False
  define g where "g = max (expo x - 52) (- 1074)"
  define h where "h = max (expo x + int n - 52) (- 1074)"
  define m where "m = round_even (x / spacing x)"
  have x: "x = of_int m * 2 powi g"
    using assms False by (simp add: dbl_def spacing_def m_def g_def)
  have h: "h \<le> g + int n" by (simp add: g_def h_def)
  have s: "spacing (x * 2 ^ n) = 2 powi h"
    using False by (simp add: spacing_def expo_scale h_def)
  have "(2 :: real) powi g * 2 ^ n / 2 powi h = 2 powi (g + int n - h)"
    by (simp add: power_int_add power_int_diff)
  also have "\<dots> = of_int (2 ^ nat (g + int n - h))"
    using h by (simp add: power_int_nonneg_exp)
  finally have q: "(2 :: real) powi g * 2 ^ n / 2 powi h = of_int (2 ^ nat (g + int n - h))" .
  have "x * 2 ^ n / spacing (x * 2 ^ n) = of_int m * (2 powi g * 2 ^ n / 2 powi h)"
    unfolding s by (subst x) simp
  also have "\<dots> = of_int (m * 2 ^ nat (g + int n - h))"
    unfolding q by simp
  finally have "x * 2 ^ n / spacing (x * 2 ^ n) = of_int (m * 2 ^ nat (g + int n - h))" .
  then have "x * 2 ^ n \<le> dbl (x * 2 ^ n)" "dbl (x * 2 ^ n) \<le> x * 2 ^ n"
    by (rule dbl_grid_le dbl_grid_ge, simp)+
  then show ?thesis by simp
qed

text \<open>Some values: 1/3 and 1/10 have no finite binary expansion; \<open>2 ^ 53 + 1\<close> and
  \<open>2 ^ 53 + 3\<close> lie half way between two neighbours and go to the even one.\<close>

lemma dbl_examples:
  "dbl (1 / 3) = 6004799503160661 / 18014398509481984"
  "dbl (1 / 10) = 3602879701896397 / 36028797018963968"
  "dbl (2 ^ 53 + 1) = 2 ^ 53"
  "dbl (2 ^ 53 + 3) = 2 ^ 53 + 4"
  by code_simp+


section \<open>Fields that the functions leave alone\<close>

lemma parse_begin_keeps:
  "snd_to_biphase_cnt (parse_begin d offset posinfo) = snd_to_biphase_cnt d"
  "snd_to_biphase_lmt (parse_begin d offset posinfo) = snd_to_biphase_lmt d"
  "snd_to_biphase_period (parse_begin d offset posinfo) = snd_to_biphase_period d"
  "snd_to_biphase_min (parse_begin d offset posinfo) = snd_to_biphase_min d"
  "snd_to_biphase_max (parse_begin d offset posinfo) = snd_to_biphase_max d"
  "snd_to_biphase_state (parse_begin d offset posinfo) = snd_to_biphase_state d"
  "biphase_state (parse_begin d offset posinfo) = biphase_state d"
  "biphase_prev (parse_begin d offset posinfo) = biphase_prev d"
  "biphase_tics (parse_begin d offset posinfo) = biphase_tics d"
  "biphase_tic (parse_begin d offset posinfo) = biphase_tic d"
  "queue_len (parse_begin d offset posinfo) = queue_len d"
  "queue (parse_begin d offset posinfo) = queue d"
  "queue_write_off (parse_begin d offset posinfo) = queue_write_off d"
  "bit_cnt (parse_begin d offset posinfo) = bit_cnt d"
  "decoder_sync_word (parse_begin d offset posinfo) = decoder_sync_word d"
  by (simp_all add: parse_begin_def Let_def)

lemma parse_overflow_keeps:
  "snd_to_biphase_cnt (parse_overflow d) = snd_to_biphase_cnt d"
  "snd_to_biphase_lmt (parse_overflow d) = snd_to_biphase_lmt d"
  "snd_to_biphase_period (parse_overflow d) = snd_to_biphase_period d"
  "snd_to_biphase_min (parse_overflow d) = snd_to_biphase_min d"
  "snd_to_biphase_max (parse_overflow d) = snd_to_biphase_max d"
  "snd_to_biphase_state (parse_overflow d) = snd_to_biphase_state d"
  "biphase_state (parse_overflow d) = biphase_state d"
  "biphase_prev (parse_overflow d) = biphase_prev d"
  "biphase_tics (parse_overflow d) = biphase_tics d"
  "biphase_tic (parse_overflow d) = biphase_tic d"
  "queue_len (parse_overflow d) = queue_len d"
  "queue (parse_overflow d) = queue d"
  "queue_write_off (parse_overflow d) = queue_write_off d"
  "decoder_sync_word (parse_overflow d) = decoder_sync_word d"
  "frame_start_prev (parse_overflow d) = frame_start_prev d"
  by (simp_all add: parse_overflow_def)

lemma parse_absorb_keeps:
  "snd_to_biphase_cnt (parse_absorb d b) = snd_to_biphase_cnt d"
  "snd_to_biphase_lmt (parse_absorb d b) = snd_to_biphase_lmt d"
  "snd_to_biphase_period (parse_absorb d b) = snd_to_biphase_period d"
  "snd_to_biphase_min (parse_absorb d b) = snd_to_biphase_min d"
  "snd_to_biphase_max (parse_absorb d b) = snd_to_biphase_max d"
  "snd_to_biphase_state (parse_absorb d b) = snd_to_biphase_state d"
  "biphase_state (parse_absorb d b) = biphase_state d"
  "biphase_prev (parse_absorb d b) = biphase_prev d"
  "biphase_tics (parse_absorb d b) = biphase_tics d"
  "biphase_tic (parse_absorb d b) = biphase_tic d"
  "queue_len (parse_absorb d b) = queue_len d"
  "queue (parse_absorb d b) = queue d"
  "queue_write_off (parse_absorb d b) = queue_write_off d"
  "frame_start_off (parse_absorb d b) = frame_start_off d"
  "frame_start_prev (parse_absorb d b) = frame_start_prev d"
  "bit_cnt (parse_absorb d b) = bit_cnt d + 1"
  by (simp_all add: parse_absorb_def Let_def)

lemma push_forward_keeps:
  "snd_to_biphase_cnt (push_forward d offset posinfo) = snd_to_biphase_cnt d"
  "snd_to_biphase_lmt (push_forward d offset posinfo) = snd_to_biphase_lmt d"
  "snd_to_biphase_period (push_forward d offset posinfo) = snd_to_biphase_period d"
  "snd_to_biphase_min (push_forward d offset posinfo) = snd_to_biphase_min d"
  "snd_to_biphase_max (push_forward d offset posinfo) = snd_to_biphase_max d"
  "snd_to_biphase_state (push_forward d offset posinfo) = snd_to_biphase_state d"
  "biphase_state (push_forward d offset posinfo) = biphase_state d"
  "biphase_prev (push_forward d offset posinfo) = biphase_prev d"
  "biphase_tics (push_forward d offset posinfo) = biphase_tics d"
  "biphase_tic (push_forward d offset posinfo) = biphase_tic d"
  "queue_len (push_forward d offset posinfo) = queue_len d"
  "ltc_frame (push_forward d offset posinfo) = ltc_frame d"
  "decoder_sync_word (push_forward d offset posinfo) = decoder_sync_word d"
  "bit_cnt (push_forward d offset posinfo) = bit_cnt d"
  "frame_start_off (push_forward d offset posinfo) = frame_start_off d"
  "frame_start_prev (push_forward d offset posinfo) = frame_start_prev d"
  by (simp_all add: push_forward_def Let_def)

lemma push_reverse_keeps:
  "snd_to_biphase_cnt (push_reverse d offset posinfo) = snd_to_biphase_cnt d"
  "snd_to_biphase_lmt (push_reverse d offset posinfo) = snd_to_biphase_lmt d"
  "snd_to_biphase_period (push_reverse d offset posinfo) = snd_to_biphase_period d"
  "snd_to_biphase_min (push_reverse d offset posinfo) = snd_to_biphase_min d"
  "snd_to_biphase_max (push_reverse d offset posinfo) = snd_to_biphase_max d"
  "snd_to_biphase_state (push_reverse d offset posinfo) = snd_to_biphase_state d"
  "biphase_state (push_reverse d offset posinfo) = biphase_state d"
  "biphase_prev (push_reverse d offset posinfo) = biphase_prev d"
  "biphase_tics (push_reverse d offset posinfo) = biphase_tics d"
  "biphase_tic (push_reverse d offset posinfo) = biphase_tic d"
  "queue_len (push_reverse d offset posinfo) = queue_len d"
  "ltc_frame (push_reverse d offset posinfo) = ltc_frame d"
  "decoder_sync_word (push_reverse d offset posinfo) = decoder_sync_word d"
  "bit_cnt (push_reverse d offset posinfo) = bit_cnt d"
  "frame_start_off (push_reverse d offset posinfo) = frame_start_off d"
  "frame_start_prev (push_reverse d offset posinfo) = frame_start_prev d"
  by (simp_all add: push_reverse_def Let_def)

lemma parse_forward_keeps:
  "snd_to_biphase_cnt (parse_forward d offset posinfo) = snd_to_biphase_cnt d"
  "snd_to_biphase_lmt (parse_forward d offset posinfo) = snd_to_biphase_lmt d"
  "snd_to_biphase_period (parse_forward d offset posinfo) = snd_to_biphase_period d"
  "snd_to_biphase_min (parse_forward d offset posinfo) = snd_to_biphase_min d"
  "snd_to_biphase_max (parse_forward d offset posinfo) = snd_to_biphase_max d"
  "snd_to_biphase_state (parse_forward d offset posinfo) = snd_to_biphase_state d"
  "biphase_state (parse_forward d offset posinfo) = biphase_state d"
  "biphase_prev (parse_forward d offset posinfo) = biphase_prev d"
  "biphase_tics (parse_forward d offset posinfo) = biphase_tics d"
  "biphase_tic (parse_forward d offset posinfo) = biphase_tic d"
  "queue_len (parse_forward d offset posinfo) = queue_len d"
  "ltc_frame (parse_forward d offset posinfo) = ltc_frame d"
  "decoder_sync_word (parse_forward d offset posinfo) = decoder_sync_word d"
  "frame_start_off (parse_forward d offset posinfo) = frame_start_off d"
  "frame_start_prev (parse_forward d offset posinfo) = frame_start_prev d"
  by (simp_all add: parse_forward_def Let_def push_forward_keeps)

lemma parse_reverse_keeps:
  "snd_to_biphase_cnt (parse_reverse d offset posinfo) = snd_to_biphase_cnt d"
  "snd_to_biphase_lmt (parse_reverse d offset posinfo) = snd_to_biphase_lmt d"
  "snd_to_biphase_period (parse_reverse d offset posinfo) = snd_to_biphase_period d"
  "snd_to_biphase_min (parse_reverse d offset posinfo) = snd_to_biphase_min d"
  "snd_to_biphase_max (parse_reverse d offset posinfo) = snd_to_biphase_max d"
  "snd_to_biphase_state (parse_reverse d offset posinfo) = snd_to_biphase_state d"
  "biphase_state (parse_reverse d offset posinfo) = biphase_state d"
  "biphase_prev (parse_reverse d offset posinfo) = biphase_prev d"
  "biphase_tics (parse_reverse d offset posinfo) = biphase_tics d"
  "biphase_tic (parse_reverse d offset posinfo) = biphase_tic d"
  "queue_len (parse_reverse d offset posinfo) = queue_len d"
  "decoder_sync_word (parse_reverse d offset posinfo) = decoder_sync_word d"
  "frame_start_off (parse_reverse d offset posinfo) = frame_start_off d"
  "frame_start_prev (parse_reverse d offset posinfo) = frame_start_prev d"
  by (simp_all add: parse_reverse_def Let_def push_reverse_keeps)

lemmas parse_keeps = parse_begin_keeps parse_overflow_keeps parse_absorb_keeps parse_forward_keeps parse_reverse_keeps

lemma parse_ltc_keeps:
  "snd_to_biphase_cnt (parse_ltc d b offset posinfo) = snd_to_biphase_cnt d"
  "snd_to_biphase_lmt (parse_ltc d b offset posinfo) = snd_to_biphase_lmt d"
  "snd_to_biphase_period (parse_ltc d b offset posinfo) = snd_to_biphase_period d"
  "snd_to_biphase_min (parse_ltc d b offset posinfo) = snd_to_biphase_min d"
  "snd_to_biphase_max (parse_ltc d b offset posinfo) = snd_to_biphase_max d"
  "snd_to_biphase_state (parse_ltc d b offset posinfo) = snd_to_biphase_state d"
  "biphase_state (parse_ltc d b offset posinfo) = biphase_state d"
  "biphase_prev (parse_ltc d b offset posinfo) = biphase_prev d"
  "biphase_tics (parse_ltc d b offset posinfo) = biphase_tics d"
  "biphase_tic (parse_ltc d b offset posinfo) = biphase_tic d"
  "queue_len (parse_ltc d b offset posinfo) = queue_len d"
  "frame_start_prev (parse_ltc d b offset posinfo) = offset + posinfo"
  unfolding parse_ltc_def parse_absorbed_def
  by (simp_all add: parse_keeps) (simp add: parse_begin_def Let_def)

lemma biphase_decode2_keeps:
  "snd_to_biphase_cnt (biphase_decode2 d offset pos) = snd_to_biphase_cnt d"
  "snd_to_biphase_lmt (biphase_decode2 d offset pos) = snd_to_biphase_lmt d"
  "snd_to_biphase_period (biphase_decode2 d offset pos) = snd_to_biphase_period d"
  "snd_to_biphase_min (biphase_decode2 d offset pos) = snd_to_biphase_min d"
  "snd_to_biphase_max (biphase_decode2 d offset pos) = snd_to_biphase_max d"
  "snd_to_biphase_state (biphase_decode2 d offset pos) = snd_to_biphase_state d"
  "queue_len (biphase_decode2 d offset pos) = queue_len d"
  "biphase_tic (biphase_decode2 d offset pos) = (biphase_tic d + 1) mod LTC_FRAME_BIT_COUNT"
  "biphase_tics (biphase_decode2 d offset pos) = (biphase_tics d)[biphase_tic d := snd_to_biphase_period d]"
  by (simp_all add: biphase_decode2_def Let_def parse_ltc_keeps)

lemma classify_keeps:
  "snd_to_biphase_lmt (classify d i posinfo) = snd_to_biphase_lmt d"
  "snd_to_biphase_period (classify d i posinfo) = snd_to_biphase_period d"
  "snd_to_biphase_min (classify d i posinfo) = snd_to_biphase_min d"
  "snd_to_biphase_max (classify d i posinfo) = snd_to_biphase_max d"
  "snd_to_biphase_state (classify d i posinfo) = snd_to_biphase_state d"
  "queue_len (classify d i posinfo) = queue_len d"
  by (simp_all add: classify_def biphase_decode2_keeps)


lemma track_period_keeps:
  "snd_to_biphase_cnt (track_period d) = snd_to_biphase_cnt d"
  "snd_to_biphase_min (track_period d) = snd_to_biphase_min d"
  "snd_to_biphase_max (track_period d) = snd_to_biphase_max d"
  "snd_to_biphase_state (track_period d) = snd_to_biphase_state d"
  "queue_len (track_period d) = queue_len d"
  "queue (track_period d) = queue d"
  "queue_write_off (track_period d) = queue_write_off d"
  "frame_start_prev (track_period d) = frame_start_prev d"
  by (simp_all add: track_period_def Let_def)

lemma track_envelope_keeps:
  "snd_to_biphase_cnt (track_envelope d s) = snd_to_biphase_cnt d"
  "snd_to_biphase_lmt (track_envelope d s) = snd_to_biphase_lmt d"
  "snd_to_biphase_period (track_envelope d s) = snd_to_biphase_period d"
  "snd_to_biphase_state (track_envelope d s) = snd_to_biphase_state d"
  "queue_len (track_envelope d s) = queue_len d"
  "queue (track_envelope d s) = queue d"
  "queue_write_off (track_envelope d s) = queue_write_off d"
  "bit_cnt (track_envelope d s) = bit_cnt d"
  by (simp_all add: track_envelope_def Let_def)

section \<open>Edge classification\<close>

lemma track_envelope_tic:
  "biphase_tic (track_envelope d s) = biphase_tic d"
  by (simp add: track_envelope_def Let_def)

lemma state_changed_tic:
  "biphase_tic (state_changed d i posinfo) = biphase_tic (classify d i posinfo)"
  by (simp add: state_changed_def Let_def track_period_def)

text \<open>
  C1. At a change of the two-level state (lines 310-322): when the count \<open>cnt\<close> is
  greater than the limit, \<open>biphase_decode2\<close> runs exactly twice, on the unmodified
  count; otherwise the count is doubled and \<open>biphase_decode2\<close> runs exactly once. No
  tic changes the count, and every tic advances the tic index by one modulo 80, so the
  index moves by two in the first case and by one in the second. For a sample of
  \<open>decode_ltc\<close>: the tic index moves by two or by one when the sample changes the state,
  and stays when it does not.
\<close>

theorem classify_ticks:
  "classify d i posinfo =
     (if int (snd_to_biphase_cnt d) > snd_to_biphase_lmt d
      then biphase_decode2 (biphase_decode2 d i posinfo) i posinfo
      else biphase_decode2 (d\<lparr>snd_to_biphase_cnt := 2 * snd_to_biphase_cnt d\<rparr>) i posinfo)
   \<and> snd_to_biphase_cnt (classify d i posinfo) =
     (if int (snd_to_biphase_cnt d) > snd_to_biphase_lmt d
      then snd_to_biphase_cnt d else 2 * snd_to_biphase_cnt d)
   \<and> biphase_tic (classify d i posinfo) =
     (if int (snd_to_biphase_cnt d) > snd_to_biphase_lmt d
      then (biphase_tic d + 2) mod LTC_FRAME_BIT_COUNT
      else (biphase_tic d + 1) mod LTC_FRAME_BIT_COUNT)
   \<and> biphase_tic (decode_sample d s k posinfo) =
     (if state_change (track_envelope d s) s
      then (if int (snd_to_biphase_cnt d) > snd_to_biphase_lmt d
            then (biphase_tic d + 2) mod LTC_FRAME_BIT_COUNT
            else (biphase_tic d + 1) mod LTC_FRAME_BIT_COUNT)
      else biphase_tic d)"
  by (simp add: classify_def biphase_decode2_keeps mod_simps mult.commute decode_sample_def
      Let_def state_changed_tic track_envelope_tic track_envelope_keeps)


section \<open>Silence and the period estimate\<close>

text \<open>The two comparisons of a count with a multiple of the period (lines 269 and 335)
  are exact when the period is a \<^verbatim>\<open>double\<close> and the count is below \<open>2 ^ 53\<close>: doubling a
  \<^verbatim>\<open>double\<close> gives a \<^verbatim>\<open>double\<close>. The period of a run stays a \<^verbatim>\<open>double\<close>.\<close>

lemma double_tests:
  assumes "dbl (snd_to_biphase_period d) = snd_to_biphase_period d" and "c < 2 ^ 53"
  shows "dbl (real c) > dbl (snd_to_biphase_period d * 4) \<longleftrightarrow> real c > snd_to_biphase_period d * 4"
    and "dbl (real c) \<le> dbl (2 * snd_to_biphase_period d) \<longleftrightarrow> real c \<le> 2 * snd_to_biphase_period d"
  using dbl_scale [OF assms(1), of 2] dbl_scale [OF assms(1), of 1] dbl_of_nat [OF assms(2)]
  by (simp_all add: mult.commute)

lemma track_period_double:
  assumes "dbl (snd_to_biphase_period d) = snd_to_biphase_period d"
  shows "dbl (snd_to_biphase_period (track_period d)) = snd_to_biphase_period (track_period d)"
  using assms by (simp add: track_period_def Let_def dbl_idem)

lemma decode_sample_double:
  assumes "dbl (snd_to_biphase_period d) = snd_to_biphase_period d"
  shows "dbl (snd_to_biphase_period (decode_sample d s i posinfo))
    = snd_to_biphase_period (decode_sample d s i posinfo)"
proof -
  have "dbl (snd_to_biphase_period (state_changed d' i' p'))
      = snd_to_biphase_period (state_changed d' i' p')"
    if "dbl (snd_to_biphase_period d') = snd_to_biphase_period d'" for d' i' p'
    using track_period_double [of "classify d' i' p'"] that
    by (simp add: state_changed_def Let_def classify_keeps)
  then show ?thesis
    using assms by (simp add: decode_sample_def Let_def track_envelope_keeps)
qed

text \<open>
  C2. At a change of the two-level state, with \<open>c\<close> the count after the classification
  (doubled when the interval was short): if \<open>c > period * 4\<close> and \<open>c > 16\<close>, then
  \<open>bit_cnt\<close> becomes 0 and the period and the limit keep their values; otherwise the
  period becomes \<open>(period * 3 + c) / 4\<close> and the limit becomes the new period times 3/4,
  cut to an integer as the limit is one. The arithmetic is that of the source: the
  product, the sum and the quotient are \<^verbatim>\<open>double\<close> operations, each rounded by \<open>dbl\<close>.
  The comparison with \<open>period * 4\<close> is exact for a period that is a \<^verbatim>\<open>double\<close> (last
  part). The decoder goes on in both cases.
\<close>

theorem state_changed_period:
  "(let c = (if int (snd_to_biphase_cnt d) > snd_to_biphase_lmt d
             then snd_to_biphase_cnt d else 2 * snd_to_biphase_cnt d);
        silence = (dbl (real c) > dbl (snd_to_biphase_period d * 4) \<and> c > 16);
        d' = state_changed d i posinfo
    in snd_to_biphase_cnt (classify d i posinfo) = c
     \<and> bit_cnt d' = (if silence then 0 else bit_cnt (classify d i posinfo))
     \<and> snd_to_biphase_period d' =
         (if silence then snd_to_biphase_period d
          else dbl (dbl (dbl (snd_to_biphase_period d * 3) + dbl (real c)) / 4))
     \<and> snd_to_biphase_lmt d' =
         (if silence then snd_to_biphase_lmt d
          else c_trunc (dbl (dbl (snd_to_biphase_period d' * 3) / 4)))
     \<and> (dbl (snd_to_biphase_period d) = snd_to_biphase_period d \<and> c < 2 ^ 53 \<longrightarrow>
          silence = (real c > snd_to_biphase_period d * 4 \<and> c > 16)))"
proof -
  have "dbl (real c) > dbl (snd_to_biphase_period d * 4) \<longleftrightarrow> real c > snd_to_biphase_period d * 4"
    if "dbl (snd_to_biphase_period d) = snd_to_biphase_period d" "c < 2 ^ 53" for c :: nat
    using that by (rule double_tests(1))
  then show ?thesis
    by (simp add: Let_def state_changed_def track_period_def classify_keeps
      classify_def biphase_decode2_keeps mult.commute)
qed

text \<open>A witness: at the period 24 and the limit 18, a short interval of 10 samples (the
  count becomes 20, the period 23, the limit 17) and a change of state after 100 samples
  (silence).\<close>

theorem state_changed_period_witness:
  "dbl (snd_to_biphase_period short_interval) = snd_to_biphase_period short_interval
   \<and> 2 * snd_to_biphase_cnt short_interval < 2 ^ 53
   \<and> snd_to_biphase_cnt (classify short_interval 0 0) = 20
   \<and> snd_to_biphase_period (state_changed short_interval 0 0) = 23
   \<and> snd_to_biphase_lmt (state_changed short_interval 0 0) = 17
   \<and> dbl (snd_to_biphase_period silent_interval) = snd_to_biphase_period silent_interval
   \<and> snd_to_biphase_cnt silent_interval < 2 ^ 53
   \<and> bit_cnt (state_changed silent_interval 0 0) = 0
   \<and> snd_to_biphase_period (state_changed silent_interval 0 0) = 24
   \<and> snd_to_biphase_lmt (state_changed silent_interval 0 0) = 18"
  using state_changed_period [of short_interval 0 0] state_changed_period [of silent_interval 0 0]
  by (simp add: Let_def short_interval_def silent_interval_def start_decoder_def c_trunc_def)

text \<open>Rounding shows at the \<^verbatim>\<open>double\<close> next to 15.666666666666666 and the count 1: the sum
  \<open>period * 3 + 1\<close> is rounded up to 48, so that the new period is 12 and the new limit 9,
  where the exact quotient is below 12 and three quarters of it below 9.\<close>

lemma period_fraction_update:
  "snd_to_biphase_period (track_period period_fraction) = 12
   \<and> snd_to_biphase_lmt (track_period period_fraction) = 9
   \<and> (snd_to_biphase_period period_fraction * 3 + 1) / 4 < 12
   \<and> c_trunc ((snd_to_biphase_period period_fraction * 3 + 1) / 4 * 3 / 4) = 8"
  by code_simp


section \<open>The envelope\<close>

lemma decay_bounds:
  fixes a :: int
  assumes "0 \<le> a"
  shows "0 \<le> c_div (a * 15) 16" "c_div (a * 15) 16 \<le> a"
proof -
  have eq: "c_div (a * 15) 16 = (a * 15) div 16"
    using assms by (simp add: c_div_def)
  show "0 \<le> c_div (a * 15) 16"
    using assms by (simp add: eq pos_imp_zdiv_nonneg_iff)
  have "(a * 15) div 16 \<le> (a * 16) div 16"
    using assms by (intro zdiv_mono1) simp_all
  then show "c_div (a * 15) 16 \<le> a"
    by (simp add: eq)
qed

lemma decay_min:
  assumes "m \<le> (128 :: 8 word)"
  shows "(word_of_int (SAMPLE_CENTER - c_div ((SAMPLE_CENTER - uint m) * 15) 16) :: 8 word) \<le> 128"
proof -
  have m: "0 \<le> 128 - uint m"
    using assms by (simp add: word_le_def)
  define v where "v = SAMPLE_CENTER - c_div ((SAMPLE_CENTER - uint m) * 15) 16"
  have v: "0 \<le> v" "v \<le> 128"
    using decay_bounds [OF m] uint_ge_0 [of m] unfolding v_def by linarith+
  then have "uint (word_of_int v :: 8 word) = v"
    by (simp add: uint_word_of_int take_bit_int_eq_self)
  then show ?thesis
    using v unfolding v_def [symmetric] by (simp add: word_le_def)
qed

lemma decay_max:
  assumes "(128 :: 8 word) \<le> m"
  shows "128 \<le> (word_of_int (SAMPLE_CENTER + c_div ((uint m - SAMPLE_CENTER) * 15) 16) :: 8 word)"
proof -
  have m: "0 \<le> uint m - 128"
    using assms by (simp add: word_le_def)
  have m': "uint m < 256"
    using uint_bounded [of m] by simp
  define v where "v = SAMPLE_CENTER + c_div ((uint m - SAMPLE_CENTER) * 15) 16"
  have v: "128 \<le> v" "v < 256"
    using decay_bounds [OF m] m' unfolding v_def by linarith+
  then have "uint (word_of_int v :: 8 word) = v"
    by (simp add: uint_word_of_int take_bit_int_eq_self)
  then show ?thesis
    using v unfolding v_def [symmetric] by (simp add: word_le_def)
qed

lemma track_envelope_ok: "envelope_ok d \<Longrightarrow> envelope_ok (track_envelope d s)"
  using decay_min [of "snd_to_biphase_min d"] decay_max [of "snd_to_biphase_max d"]
  by (auto simp: envelope_ok_def track_envelope_def Let_def)

lemma state_changed_keeps:
  "snd_to_biphase_min (state_changed d i posinfo) = snd_to_biphase_min d"
  "snd_to_biphase_max (state_changed d i posinfo) = snd_to_biphase_max d"
  "queue_len (state_changed d i posinfo) = queue_len d"
  by (simp_all add: state_changed_def Let_def track_period_keeps classify_keeps)

lemma decode_sample_ok: "envelope_ok d \<Longrightarrow> envelope_ok (decode_sample d s i posinfo)"
  using track_envelope_ok [of d s]
  by (simp add: decode_sample_def Let_def envelope_ok_def state_changed_keeps)

lemma decode_loop_inv:
  assumes step: "\<And>d s i p. P d \<Longrightarrow> P (decode_sample d s i p)"
  shows "P d \<Longrightarrow> sz \<le> length sound \<Longrightarrow>
    \<exists>d'. decode_loop d sound sz posinfo i = Some (d', sound) \<and> P d'"
proof (induction d sound sz posinfo i rule: decode_loop.induct)
  case (1 d sound sz posinfo i)
  show ?case
  proof (cases "i < sz")
    case True
    with "1.prems" have len: "i < length sound" by simp
    have unfold: "decode_loop d sound sz posinfo i =
        decode_loop (decode_sample d (sound ! i) i posinfo) sound sz posinfo (i + 1)"
      using True len by (subst decode_loop.simps) simp
    have "P (decode_sample d (sound ! i) i posinfo)"
      using "1.prems"(1) by (rule step)
    from "1.IH" [OF True len this "1.prems"(2)] unfold show ?thesis
      by simp
  next
    case False
    with "1.prems" show ?thesis
      by (subst decode_loop.simps) simp
  qed
qed


text \<open>
  C8. When the envelope is ordered around the centre before a call, \<open>min \<le> 128 \<le> max\<close>,
  as it is in a decoder whose envelope starts at the centre, then it is ordered after every
  sample of the call: for every \<open>k\<close> up to the number of samples, the decoder after the
  first \<open>k\<close> samples exists and is ordered.
\<close>

theorem envelope_bound:
  assumes "envelope_ok d" and "k \<le> length sound"
  shows "\<exists>d'. decode_ltc d sound k posinfo = Some (d', sound) \<and> envelope_ok d'"
  unfolding decode_ltc_def
  using decode_sample_ok assms by (rule decode_loop_inv)

text \<open>A witness: the decoder \<open>start_decoder\<close> on three samples, after the second one.\<close>

theorem envelope_bound_witness:
  "envelope_ok start_decoder
   \<and> (2 :: nat) \<le> length [200, 30, 130 :: 8 word]
   \<and> (\<exists>d'. decode_ltc start_decoder [200, 30, 130] 2 0 = Some (d', [200, 30, 130])
          \<and> envelope_ok d')"
proof -
  have ok: "envelope_ok start_decoder"
    by (simp add: envelope_ok_def start_decoder_def)
  have len: "(2 :: nat) \<le> length [200, 30, 130 :: 8 word]"
    by simp
  from envelope_bound [OF ok len, of 0] ok len show ?thesis
    by simp
qed


section \<open>The position of a tic\<close>

lemma tick_pos_cong:
  "snd_to_biphase_cnt d' = snd_to_biphase_cnt d \<Longrightarrow>
   snd_to_biphase_period d' = snd_to_biphase_period d \<Longrightarrow> tick_pos d' pos = tick_pos d pos"
  by (simp add: tick_pos_def)

lemma tick_prev: "biphase_prev (biphase_decode2 d offset pos) = snd_to_biphase_state d"
  by (simp add: biphase_decode2_def Let_def parse_ltc_keeps)

lemma tick_parse_pos:
  assumes "snd_to_biphase_state d = biphase_prev d \<or> 1 - biphase_state d = 1"
  shows "frame_start_prev (biphase_decode2 d offset pos) = offset + tick_pos d pos"
proof -
  let ?d2 = "d\<lparr>biphase_tics := (biphase_tics d)[biphase_tic d := snd_to_biphase_period d],
               biphase_tic := (biphase_tic d + 1) mod LTC_FRAME_BIT_COUNT\<rparr>"
  have "tick_pos ?d2 pos = tick_pos d pos"
    by (rule tick_pos_cong) simp_all
  with assms show ?thesis
    by (auto simp: biphase_decode2_def Let_def parse_ltc_keeps)
qed

lemma classify_long_pos:
  assumes "int (snd_to_biphase_cnt d) > snd_to_biphase_lmt d"
  shows "frame_start_prev (classify d i posinfo) = i + tick_pos d posinfo"
proof -
  let ?d1 = "biphase_decode2 d i posinfo"
  have "snd_to_biphase_state ?d1 = biphase_prev ?d1"
    by (simp add: tick_prev biphase_decode2_keeps)
  then have "frame_start_prev (biphase_decode2 ?d1 i posinfo) = i + tick_pos ?d1 posinfo"
    by (intro tick_parse_pos) simp
  moreover have "tick_pos ?d1 posinfo = tick_pos d posinfo"
    by (rule tick_pos_cong) (simp_all add: biphase_decode2_keeps)
  ultimately show ?thesis
    using assms by (simp add: classify_def)
qed

lemma short_within_two_periods:
  assumes "\<not> int (snd_to_biphase_cnt d) > snd_to_biphase_lmt d"
    and "0 \<le> snd_to_biphase_period d"
    and "real_of_int (snd_to_biphase_lmt d) \<le> 3 / 4 * snd_to_biphase_period d"
  shows "dbl (real (2 * snd_to_biphase_cnt d)) \<le> dbl (2 * snd_to_biphase_period d)"
proof -
  from assms(1) have "real (snd_to_biphase_cnt d) \<le> real_of_int (snd_to_biphase_lmt d)"
    by linarith
  with assms(2,3) have "real (2 * snd_to_biphase_cnt d) \<le> 2 * snd_to_biphase_period d"
    by simp
  then show ?thesis by (rule dbl_mono)
qed

text \<open>
  C7, as amended. The position that a tic hands to the frame assembler shows in
  \<open>frame_start_prev\<close>, which \<open>parse_ltc\<close> sets to \<open>offset + posinfo\<close>. It is the
  position of the call moved back by \<open>period - cnt\<close> exactly when \<open>cnt \<le> 2 * period\<close>
  at the tic, and the position of the call otherwise: the test of line 269 does not look
  at the classification. The difference \<open>pos - (period - cnt)\<close> is computed in
  \<^verbatim>\<open>double\<close> arithmetic, every operation rounded by \<open>dbl\<close>, and cut to an integer. So the
  tics of a long interval are adjusted too whenever \<open>cnt \<le> 2 * period\<close> (second part).
  The tic of a short interval, which sees the doubled count, is always adjusted when
  \<open>0 \<le> period\<close> and \<open>limit \<le> 3/4 * period\<close> (third part). The test of line 269 is
  exact for a period that is a \<^verbatim>\<open>double\<close> (fourth part).
\<close>

theorem tick_position:
  "(snd_to_biphase_state d = biphase_prev d \<or> 1 - biphase_state d = 1 \<longrightarrow>
      frame_start_prev (biphase_decode2 d offset pos) = offset +
        (if dbl (real (snd_to_biphase_cnt d)) \<le> dbl (2 * snd_to_biphase_period d)
         then c_trunc (dbl (dbl (real_of_int pos)
                 - dbl (snd_to_biphase_period d - dbl (real (snd_to_biphase_cnt d)))))
         else pos))
   \<and> (int (snd_to_biphase_cnt d) > snd_to_biphase_lmt d \<longrightarrow>
      frame_start_prev (classify d offset pos) = offset +
        (if dbl (real (snd_to_biphase_cnt d)) \<le> dbl (2 * snd_to_biphase_period d)
         then c_trunc (dbl (dbl (real_of_int pos)
                 - dbl (snd_to_biphase_period d - dbl (real (snd_to_biphase_cnt d)))))
         else pos))
   \<and> (\<not> int (snd_to_biphase_cnt d) > snd_to_biphase_lmt d \<and> 0 \<le> snd_to_biphase_period d
        \<and> real_of_int (snd_to_biphase_lmt d) \<le> 3 / 4 * snd_to_biphase_period d \<longrightarrow>
      tick_pos (d\<lparr>snd_to_biphase_cnt := snd_to_biphase_cnt d * 2\<rparr>) pos =
        c_trunc (dbl (dbl (real_of_int pos)
                 - dbl (snd_to_biphase_period d - dbl (real (2 * snd_to_biphase_cnt d))))))
   \<and> (dbl (snd_to_biphase_period d) = snd_to_biphase_period d \<and> snd_to_biphase_cnt d < 2 ^ 53 \<longrightarrow>
      (dbl (real (snd_to_biphase_cnt d)) \<le> dbl (2 * snd_to_biphase_period d))
        = (real (snd_to_biphase_cnt d) \<le> 2 * snd_to_biphase_period d))"
proof (intro conjI impI)
  assume "snd_to_biphase_state d = biphase_prev d \<or> 1 - biphase_state d = 1"
  then show "frame_start_prev (biphase_decode2 d offset pos) = offset +
        (if dbl (real (snd_to_biphase_cnt d)) \<le> dbl (2 * snd_to_biphase_period d)
         then c_trunc (dbl (dbl (real_of_int pos)
                 - dbl (snd_to_biphase_period d - dbl (real (snd_to_biphase_cnt d)))))
         else pos)"
    by (simp add: tick_parse_pos tick_pos_def)
next
  assume "int (snd_to_biphase_cnt d) > snd_to_biphase_lmt d"
  then show "frame_start_prev (classify d offset pos) = offset +
        (if dbl (real (snd_to_biphase_cnt d)) \<le> dbl (2 * snd_to_biphase_period d)
         then c_trunc (dbl (dbl (real_of_int pos)
                 - dbl (snd_to_biphase_period d - dbl (real (snd_to_biphase_cnt d)))))
         else pos)"
    by (simp add: classify_long_pos tick_pos_def)
next
  assume "\<not> int (snd_to_biphase_cnt d) > snd_to_biphase_lmt d \<and> 0 \<le> snd_to_biphase_period d
        \<and> real_of_int (snd_to_biphase_lmt d) \<le> 3 / 4 * snd_to_biphase_period d"
  then have "dbl (real (2 * snd_to_biphase_cnt d)) \<le> dbl (2 * snd_to_biphase_period d)"
    by (intro short_within_two_periods) simp_all
  then show "tick_pos (d\<lparr>snd_to_biphase_cnt := snd_to_biphase_cnt d * 2\<rparr>) pos =
        c_trunc (dbl (dbl (real_of_int pos)
                 - dbl (snd_to_biphase_period d - dbl (real (2 * snd_to_biphase_cnt d)))))"
    by (simp add: tick_pos_def mult.commute)
next
  assume "dbl (snd_to_biphase_period d) = snd_to_biphase_period d \<and> snd_to_biphase_cnt d < 2 ^ 53"
  then show "(dbl (real (snd_to_biphase_cnt d)) \<le> dbl (2 * snd_to_biphase_period d))
        = (real (snd_to_biphase_cnt d) \<le> 2 * snd_to_biphase_period d)"
    by (intro double_tests(2)) simp_all
qed

text \<open>A witness: a long interval of 20 samples and a short one of 10 samples at the
  period 24 and the limit 18, at the position 1000.\<close>

theorem tick_position_witness:
  "snd_to_biphase_state long_interval = biphase_prev long_interval
   \<and> frame_start_prev (biphase_decode2 long_interval 0 1000) = 996
   \<and> int (snd_to_biphase_cnt long_interval) > snd_to_biphase_lmt long_interval
   \<and> frame_start_prev (classify long_interval 0 1000) = 996
   \<and> \<not> int (snd_to_biphase_cnt short_interval) > snd_to_biphase_lmt short_interval
   \<and> tick_pos (short_interval\<lparr>snd_to_biphase_cnt := snd_to_biphase_cnt short_interval * 2\<rparr>) 1000
       = 996
   \<and> dbl (snd_to_biphase_period long_interval) = snd_to_biphase_period long_interval
   \<and> snd_to_biphase_cnt long_interval < 2 ^ 53
   \<and> real (snd_to_biphase_cnt long_interval) \<le> 2 * snd_to_biphase_period long_interval"
  using tick_position [of long_interval 0 1000] tick_position [of short_interval 0 1000]
  by (simp add: long_interval_def short_interval_def start_decoder_def c_trunc_def)

text \<open>Rounding shows at the period \<open>2 + 2 ^ - 40\<close>, the count 2 and the position 172800000:
  the difference \<open>172800000 - 2 ^ - 40\<close> is rounded to 172800000, where the exact
  difference is cut to 172799999.\<close>

lemma period_above_two_pos:
  "tick_pos period_above_two 172800000 = 172800000
   \<and> c_trunc (172800000 - (snd_to_biphase_period period_above_two - 2)) = 172799999"
  by code_simp

text \<open>The claim as stated fails: the interval of 20 samples is long (the limit is 18), and
  its tics hand on the position 996, not 1000.\<close>

theorem long_tick_adjusted:
  "int (snd_to_biphase_cnt long_interval) > snd_to_biphase_lmt long_interval
   \<and> frame_start_prev (classify long_interval 0 1000) = 996
   \<and> frame_start_prev (classify long_interval 0 1000) \<noteq> 0 + 1000"
proof -
  have long: "int (snd_to_biphase_cnt long_interval) > snd_to_biphase_lmt long_interval"
    by (simp add: long_interval_def start_decoder_def)
  have "tick_pos long_interval 1000 = 996"
    by (simp add: tick_pos_def long_interval_def start_decoder_def c_trunc_def)
  with classify_long_pos [OF long, of 0 1000] long show ?thesis
    by simp
qed


section \<open>The queue\<close>

lemma queue_slot_bound: "queue_ok d \<Longrightarrow> queue_slot d < queue_len d"
  by (auto simp: queue_ok_def queue_slot_def)

lemma push_forward_queue:
  assumes "queue_ok d"
  shows "queue (push_forward d offset posinfo) ! queue_slot d =
           \<lparr>ltc = ltc_frame d, off_start = frame_start_off d, off_end = posinfo + offset - 1,
            reverse = 0, ext_biphase_tics = copy_tics d,
            sample_min = snd_to_biphase_min d, sample_max = snd_to_biphase_max d,
            volume = calc_volume_db d\<rparr>"
    and "queue_write_off (push_forward d offset posinfo) = queue_slot d + 1"
    and "length (queue (push_forward d offset posinfo)) = length (queue d)"
    and "k \<noteq> queue_slot d \<Longrightarrow> queue (push_forward d offset posinfo) ! k = queue d ! k"
  using queue_slot_bound [OF assms] assms
  by (simp_all add: push_forward_def Let_def queue_ok_def)

lemma push_reverse_queue:
  assumes "queue_ok d"
  shows "queue (push_reverse d offset posinfo) ! queue_slot d =
           \<lparr>ltc = ltc_frame d,
            off_start = c_trunc (dbl (dbl (real_of_int (frame_start_off d))
                                      - dbl (16 * snd_to_biphase_period d))),
            off_end = c_trunc (dbl (dbl (real_of_int (posinfo + offset - 1))
                                    - dbl (16 * snd_to_biphase_period d))),
            reverse = c_trunc (dbl (80 * snd_to_biphase_period d)),
            ext_biphase_tics = copy_tics d,
            sample_min = snd_to_biphase_min d, sample_max = snd_to_biphase_max d,
            volume = calc_volume_db d\<rparr>"
    and "queue_write_off (push_reverse d offset posinfo) = queue_slot d + 1"
    and "length (queue (push_reverse d offset posinfo)) = length (queue d)"
    and "k \<noteq> queue_slot d \<Longrightarrow> queue (push_reverse d offset posinfo) ! k = queue d ! k"
  using queue_slot_bound [OF assms] assms
  by (simp_all add: push_reverse_def Let_def queue_ok_def)

lemma push_forward_ok: "queue_ok d \<Longrightarrow> queue_ok (push_forward d offset posinfo)"
  using queue_slot_bound [of d]
  by (simp add: queue_ok_def push_forward_queue push_forward_keeps)

lemma push_reverse_ok: "queue_ok d \<Longrightarrow> queue_ok (push_reverse d offset posinfo)"
  using queue_slot_bound [of d]
  by (simp add: queue_ok_def push_reverse_queue push_reverse_keeps)

lemma parse_absorbed_queue:
  "queue (parse_absorbed d b offset posinfo) = queue d"
  "queue_len (parse_absorbed d b offset posinfo) = queue_len d"
  "queue_write_off (parse_absorbed d b offset posinfo) = queue_write_off d"
  "queue_slot (parse_absorbed d b offset posinfo) = queue_slot d"
  "queue_ok (parse_absorbed d b offset posinfo) = queue_ok d"
  by (simp_all add: parse_absorbed_def parse_keeps queue_slot_def queue_ok_def)

lemma parse_ltc_ok:
  assumes "queue_ok d"
  shows "queue_ok (parse_ltc d b offset posinfo)"
proof -
  let ?a = "parse_absorbed d b offset posinfo"
  have a: "queue_ok ?a" using assms by (simp add: parse_absorbed_queue)
  have f: "queue_ok (parse_forward ?a offset posinfo)"
    using a push_forward_ok [OF a, of offset posinfo]
    by (simp add: parse_forward_def Let_def queue_ok_def)
  let ?f = "parse_forward ?a offset posinfo"
  let ?s = "?f\<lparr>ltc_frame := swap_bytes (swap_bits (ltc_frame ?f))\<rparr>"
  have "queue_ok ?s" using f by (simp add: queue_ok_def)
  from push_reverse_ok [OF this, of offset posinfo] f
  show ?thesis
    by (simp add: parse_ltc_def parse_reverse_def Let_def queue_ok_def)
qed

lemma biphase_decode2_ok:
  assumes "queue_ok d"
  shows "queue_ok (biphase_decode2 d offset pos)"
proof -
  have upd: "queue_ok (d'\<lparr>biphase_prev := bp\<rparr>) = queue_ok d'" for d' bp
    by (simp add: queue_ok_def)
  let ?d2 = "d\<lparr>biphase_tics := (biphase_tics d)[biphase_tic d := snd_to_biphase_period d],
               biphase_tic := (biphase_tic d + 1) mod LTC_FRAME_BIT_COUNT\<rparr>"
  have "queue_ok (?d2\<lparr>biphase_state := bs\<rparr>)" for bs
    using assms by (simp add: queue_ok_def)
  then have "queue_ok (parse_ltc (?d2\<lparr>biphase_state := bs\<rparr>) b offset p)" for bs b p
    by (rule parse_ltc_ok)
  moreover have "queue_ok (?d2\<lparr>biphase_state := bs\<rparr>)" for bs
    using assms by (simp add: queue_ok_def)
  ultimately show ?thesis
    by (simp add: biphase_decode2_def Let_def upd)
qed

lemma decode_sample_queue_ok:
  assumes "queue_ok d"
  shows "queue_ok (decode_sample d s i posinfo)"
proof -
  have env: "queue_ok (track_envelope d s)"
    using assms by (simp add: queue_ok_def track_envelope_keeps)
  have cnt: "queue_ok (d'\<lparr>snd_to_biphase_cnt := c\<rparr>) = queue_ok d'" for d' c
    by (simp add: queue_ok_def)
  have cls: "queue_ok (classify d' i' p')" if "queue_ok d'" for d' i' p'
    using that by (simp add: classify_def biphase_decode2_ok cnt)
  have "queue_ok (state_changed d' i' p')" if "queue_ok d'" for d' i' p'
    using cls [OF that, of i' p']
    by (simp add: state_changed_def Let_def queue_ok_def track_period_keeps)
  with env show ?thesis
    by (simp add: decode_sample_def Let_def cnt)
qed

text \<open>
  C9, as amended. In a queue as allocated (\<open>queue_ok\<close>: at least one slot, write offset at
  most \<open>queue_len\<close>), a push writes the frame to a slot inside the queue, slot 0 when the
  write offset has reached \<open>queue_len\<close> and the slot at the write offset otherwise, and
  leaves the write offset one behind that slot: in \<open>[1, queue_len]\<close>. The offset is
  equal to \<open>queue_len\<close> after the last slot was written; it goes back to 0 only at the
  start of the next push. \<open>parse_ltc\<close> and \<open>decode_ltc\<close> keep the queue as allocated;
  there is no failure branch.
\<close>

theorem queue_push:
  assumes "queue_ok d"
  shows "queue_slot d < queue_len d
    \<and> queue_slot d = (if queue_write_off d = queue_len d then 0 else queue_write_off d)
    \<and> ltc (queue (push_forward d offset posinfo) ! queue_slot d) = ltc_frame d
    \<and> ltc (queue (push_reverse d offset posinfo) ! queue_slot d) = ltc_frame d
    \<and> queue_write_off (push_forward d offset posinfo) = queue_slot d + 1
    \<and> queue_write_off (push_reverse d offset posinfo) = queue_slot d + 1
    \<and> queue_write_off (push_forward d offset posinfo) \<le> queue_len d
    \<and> queue_write_off (push_reverse d offset posinfo) \<le> queue_len d
    \<and> queue_ok (parse_ltc d b offset posinfo)
    \<and> (sz \<le> length sound \<longrightarrow>
         (\<exists>d'. decode_ltc d sound sz posinfo = Some (d', sound) \<and> queue_ok d'))"
proof -
  have "\<exists>d'. decode_ltc d sound sz posinfo = Some (d', sound) \<and> queue_ok d'"
    if "sz \<le> length sound"
    unfolding decode_ltc_def
    using decode_sample_queue_ok assms that by (rule decode_loop_inv)
  then show ?thesis
    using assms queue_slot_bound [OF assms]
    by (simp add: push_forward_queue push_reverse_queue parse_ltc_ok) (simp add: queue_slot_def)
qed

text \<open>A witness: the write offset is 2 in a queue of 2 slots, and the frame goes to
  slot 0.\<close>

lemmas parse_absorbed_unfold = parse_absorbed_def parse_begin_def parse_overflow_def
  parse_absorb_def Let_def

lemma forward_ready_absorbed:
  "decoder_sync_word (parse_absorbed forward_ready 1 0 100) = 0x3FFD"
  "bit_cnt (parse_absorbed forward_ready 1 0 100) = 80"
  "queue_ok forward_ready"
  "queue_slot forward_ready = 0"
  by (simp_all add: parse_absorbed_unfold forward_ready_def start_decoder_def queue_ok_def
      queue_slot_def)

lemma queue_at_end_absorbed:
  "decoder_sync_word (parse_absorbed queue_at_end 1 0 100) = 0x3FFD"
  "bit_cnt (parse_absorbed queue_at_end 1 0 100) = 80"
  "queue_ok queue_at_end"
  "queue_slot queue_at_end = 0"
  "queue_write_off queue_at_end = queue_len queue_at_end"
  by (simp_all add: parse_absorbed_unfold queue_at_end_def forward_ready_def start_decoder_def
      queue_ok_def queue_slot_def)

theorem queue_push_witness:
  "queue_ok queue_at_end
   \<and> queue_write_off queue_at_end = queue_len queue_at_end
   \<and> queue_slot queue_at_end = 0
   \<and> ltc (queue (push_forward queue_at_end 0 100) ! 0) = ltc_frame queue_at_end
   \<and> queue_write_off (push_forward queue_at_end 0 100) = 1
   \<and> queue_write_off (push_reverse queue_at_end 0 100) = 1
   \<and> queue_ok (parse_ltc queue_at_end 1 0 100)"
  using queue_push [OF queue_at_end_absorbed(3), of 0 100 1]
  by (simp add: queue_at_end_absorbed)


section \<open>The sync word\<close>

lemma parse_ltc_cases:
  "parse_ltc d b offset posinfo =
     (let a = parse_absorbed d b offset posinfo
      in if decoder_sync_word a = 0x3FFD
         then (if bit_cnt a = LTC_FRAME_BIT_COUNT
               then push_forward a offset posinfo else a)\<lparr>bit_cnt := 0\<rparr>
         else if decoder_sync_word a = 0xBFFC
         then (if bit_cnt a = LTC_FRAME_BIT_COUNT
               then push_reverse (a\<lparr>ltc_frame := swap_bytes (swap_bits (ltc_frame a))\<rparr>)
                      offset posinfo
               else a)\<lparr>bit_cnt := 0\<rparr>
         else a)"
  by (simp add: parse_ltc_def parse_forward_def parse_reverse_def Let_def push_forward_keeps)

text \<open>
  C6, as amended. With \<open>a\<close> the decoder once the bit is absorbed: a frame goes to the
  queue exactly when the sync word of \<open>a\<close> is one of the two patterns and \<open>bit_cnt\<close> of
  \<open>a\<close> is 80; otherwise the queue and its write offset stay as they are. But \<open>bit_cnt\<close>
  is set to 0 at every match of the sync word, also when \<open>bit_cnt\<close> is not 80 (line 206
  and line 261 stand outside the test of \<open>bit_cnt\<close>); without a match it is that of \<open>a\<close>.
\<close>

theorem sync_match_effect:
  "(let a = parse_absorbed d b offset posinfo;
        d' = parse_ltc d b offset posinfo;
        matched = (decoder_sync_word a = 0x3FFD \<or> decoder_sync_word a = 0xBFFC)
    in bit_cnt d' = (if matched then 0 else bit_cnt a)
     \<and> (decoder_sync_word a = 0x3FFD \<and> bit_cnt a = LTC_FRAME_BIT_COUNT \<longrightarrow>
          queue d' = queue (push_forward a offset posinfo)
          \<and> queue_write_off d' = queue_slot d + 1)
     \<and> (decoder_sync_word a = 0xBFFC \<and> bit_cnt a = LTC_FRAME_BIT_COUNT \<longrightarrow>
          queue d' = queue (push_reverse (a\<lparr>ltc_frame := swap_bytes (swap_bits (ltc_frame a))\<rparr>)
                              offset posinfo)
          \<and> queue_write_off d' = queue_slot d + 1)
     \<and> (\<not> (matched \<and> bit_cnt a = LTC_FRAME_BIT_COUNT) \<longrightarrow>
          queue d' = queue d \<and> queue_write_off d' = queue_write_off d))"
  by (simp add: parse_ltc_cases Let_def parse_absorbed_queue push_forward_def push_reverse_def
      queue_slot_def)

text \<open>A witness: a forward frame, a reverse frame, and a bit without a match.\<close>

lemma reverse_ready_absorbed:
  "decoder_sync_word (parse_absorbed reverse_ready 0 0 100) = 0xBFFC"
  "bit_cnt (parse_absorbed reverse_ready 0 0 100) = 80"
  "queue_ok reverse_ready"
  "queue_slot reverse_ready = 0"
  "length (ltc_frame reverse_ready) = 10"
  "snd_to_biphase_period reverse_ready = 24"
  "frame_start_off (parse_absorbed reverse_ready 0 0 100) = 0"
  "tic_ready reverse_ready"
  by (simp_all add: parse_absorbed_unfold reverse_ready_def start_decoder_def queue_ok_def
      queue_slot_def tic_ready_def)

lemma start_absorbed:
  "decoder_sync_word (parse_absorbed start_decoder 0 0 100) = 0"
  "bit_cnt (parse_absorbed start_decoder 0 0 100) = 1"
  "queue_slot start_decoder = 0"
  "queue_write_off start_decoder = 0"
  by (simp_all add: parse_absorbed_unfold start_decoder_def queue_slot_def)

theorem sync_match_effect_witness:
  "decoder_sync_word (parse_absorbed forward_ready 1 0 100) = 0x3FFD
   \<and> bit_cnt (parse_absorbed forward_ready 1 0 100) = LTC_FRAME_BIT_COUNT
   \<and> bit_cnt (parse_ltc forward_ready 1 0 100) = 0
   \<and> queue_write_off (parse_ltc forward_ready 1 0 100) = 1
   \<and> decoder_sync_word (parse_absorbed reverse_ready 0 0 100) = 0xBFFC
   \<and> bit_cnt (parse_absorbed reverse_ready 0 0 100) = LTC_FRAME_BIT_COUNT
   \<and> bit_cnt (parse_ltc reverse_ready 0 0 100) = 0
   \<and> queue_write_off (parse_ltc reverse_ready 0 0 100) = 1
   \<and> decoder_sync_word (parse_absorbed start_decoder 0 0 100) = 0
   \<and> bit_cnt (parse_ltc start_decoder 0 0 100) = 1
   \<and> queue (parse_ltc start_decoder 0 0 100) = queue start_decoder
   \<and> queue_write_off (parse_ltc start_decoder 0 0 100) = 0"
  using sync_match_effect [of forward_ready 1 0 100] sync_match_effect [of reverse_ready 0 0 100]
    sync_match_effect [of start_decoder 0 0 100]
  by (simp add: Let_def forward_ready_absorbed reverse_ready_absorbed start_absorbed)


section \<open>The register\<close>

lemma mask_test:
  "(b AND 0x80 \<noteq> 0) = bit b 7" "(b AND 0x40 \<noteq> 0) = bit b 6" "(b AND 0x20 \<noteq> 0) = bit b 5"
  "(b AND 0x10 \<noteq> 0) = bit b 4" "(b AND 0x08 \<noteq> 0) = bit b 3" "(b AND 0x04 \<noteq> 0) = bit b 2"
  "(b AND 0x02 \<noteq> 0) = bit b 1" "(b AND 0x01 \<noteq> 0) = bit b 0" for b :: "8 word"
  using and_exp_eq_0_iff_not_bit [of b 7] and_exp_eq_0_iff_not_bit [of b 6]
    and_exp_eq_0_iff_not_bit [of b 5] and_exp_eq_0_iff_not_bit [of b 4]
    and_exp_eq_0_iff_not_bit [of b 3] and_exp_eq_0_iff_not_bit [of b 2]
    and_exp_eq_0_iff_not_bit [of b 1] and_exp_eq_0_iff_not_bit [of b 0]
  by simp_all


lemma swap_byte_bit: "bit (swap_byte b) n \<longleftrightarrow> n < 8 \<and> bit b (7 - n)"
proof -
  consider "n = 0" | "n = 1" | "n = 2" | "n = 3" | "n = 4" | "n = 5" | "n = 6" | "n = 7" | "8 \<le> n"
    by linarith
  then show ?thesis
    by cases (simp_all add: swap_byte_def mask_test bit_or_iff bit_1_iff)
qed

lemma list10:
  assumes "length f = 10"
  obtains b0 b1 b2 b3 b4 b5 b6 b7 b8 b9 where "f = [b0, b1, b2, b3, b4, b5, b6, b7, b8, b9]"
proof -
  have len: "length f = Suc (Suc (Suc (Suc (Suc (Suc (Suc (Suc (Suc (Suc 0)))))))))"
    using assms by simp
  then obtain b0 b1 b2 b3 b4 b5 b6 b7 b8 b9 where "f = [b0, b1, b2, b3, b4, b5, b6, b7, b8, b9]"
    unfolding length_Suc_conv by auto
  then show ?thesis by (rule that)
qed

lemma upt10: "[0 ..< 10] = [0, 1, 2, 3, 4, 5, 6, 7, 8, 9 :: nat]"
  by (simp add: upt_rec)

lemma upt4: "[0 ..< 4] = [0, 1, 2, 3 :: nat]"
  by (simp add: upt_rec)

lemma shift_frame_list:
  "shift_frame [b0, b1, b2, b3, b4, b5, b6, b7, b8, b9] =
     [shift_byte b0 OR (if bit b1 0 then 0x80 else 0), shift_byte b1 OR (if bit b2 0 then 0x80 else 0),
      shift_byte b2 OR (if bit b3 0 then 0x80 else 0), shift_byte b3 OR (if bit b4 0 then 0x80 else 0),
      shift_byte b4 OR (if bit b5 0 then 0x80 else 0), shift_byte b5 OR (if bit b6 0 then 0x80 else 0),
      shift_byte b6 OR (if bit b7 0 then 0x80 else 0), shift_byte b7 OR (if bit b8 0 then 0x80 else 0),
      shift_byte b8 OR (if bit b9 0 then 0x80 else 0), shift_byte b9]"
  by (simp add: shift_frame_def upt10 shift_step_def mask_test)

lemma swap_bits_list:
  "swap_bits [b0, b1, b2, b3, b4, b5, b6, b7, b8, b9] =
     [swap_byte b0, swap_byte b1, swap_byte b2, swap_byte b3, swap_byte b4, swap_byte b5,
      swap_byte b6, swap_byte b7, swap_byte b8, swap_byte b9]"
  by (simp add: swap_bits_def upt10)

lemma swap_bytes_list:
  "swap_bytes [b0, b1, b2, b3, b4, b5, b6, b7, b8, b9] = [b7, b6, b5, b4, b3, b2, b1, b0, b8, b9]"
  by (simp add: swap_bytes_def upt4)













section \<open>Forward frames\<close>

lemma parse_absorbed_keeps:
  "snd_to_biphase_period (parse_absorbed d b offset posinfo) = snd_to_biphase_period d"
  "snd_to_biphase_min (parse_absorbed d b offset posinfo) = snd_to_biphase_min d"
  "snd_to_biphase_max (parse_absorbed d b offset posinfo) = snd_to_biphase_max d"
  "biphase_tics (parse_absorbed d b offset posinfo) = biphase_tics d"
  "biphase_tic (parse_absorbed d b offset posinfo) = biphase_tic d"
  by (simp_all add: parse_absorbed_def parse_keeps)

lemma calc_volume_db_cong:
  "snd_to_biphase_min d' = snd_to_biphase_min d \<Longrightarrow> snd_to_biphase_max d' = snd_to_biphase_max d
   \<Longrightarrow> calc_volume_db d' = calc_volume_db d"
  by (simp add: calc_volume_db_def)

lemma copy_tics_cong:
  "biphase_tics d' = biphase_tics d \<Longrightarrow> biphase_tic d' = biphase_tic d
   \<Longrightarrow> copy_tics d' = copy_tics d"
  by (simp add: copy_tics_def)

lemma copy_tics_nth:
  "length (copy_tics d) = 80"
  "bc < 80 \<Longrightarrow> copy_tics d ! bc = biphase_tics d ! ((biphase_tic d + bc) mod 80)"
  by (simp_all add: copy_tics_def)

lemma forward_entry:
  assumes "decoder_sync_word (parse_absorbed d b offset posinfo) = 0x3FFD"
    and "bit_cnt (parse_absorbed d b offset posinfo) = 80"
    and "queue_ok d"
  shows "queue (parse_ltc d b offset posinfo) ! queue_slot d =
           \<lparr>ltc = ltc_frame (parse_absorbed d b offset posinfo),
            off_start = frame_start_off (parse_absorbed d b offset posinfo),
            off_end = posinfo + offset - 1,
            reverse = 0, ext_biphase_tics = copy_tics d,
            sample_min = snd_to_biphase_min d, sample_max = snd_to_biphase_max d,
            volume = calc_volume_db d\<rparr>"
    and "queue_write_off (parse_ltc d b offset posinfo) = queue_slot d + 1"
    and "bit_cnt (parse_ltc d b offset posinfo) = 0"
proof -
  let ?a = "parse_absorbed d b offset posinfo"
  have ok: "queue_ok ?a" using assms(3) by (simp add: parse_absorbed_queue)
  have p: "parse_ltc d b offset posinfo = (push_forward ?a offset posinfo)\<lparr>bit_cnt := 0\<rparr>"
    using assms(1,2) by (simp add: parse_ltc_cases Let_def)
  have v: "calc_volume_db ?a = calc_volume_db d"
    by (rule calc_volume_db_cong) (simp_all add: parse_absorbed_keeps)
  have t: "copy_tics ?a = copy_tics d"
    by (rule copy_tics_cong) (simp_all add: parse_absorbed_keeps)
  show "queue (parse_ltc d b offset posinfo) ! queue_slot d =
           \<lparr>ltc = ltc_frame ?a, off_start = frame_start_off ?a, off_end = posinfo + offset - 1,
            reverse = 0, ext_biphase_tics = copy_tics d,
            sample_min = snd_to_biphase_min d, sample_max = snd_to_biphase_max d,
            volume = calc_volume_db d\<rparr>"
    using push_forward_queue(1) [OF ok, of offset posinfo]
    by (simp add: p parse_absorbed_queue parse_absorbed_keeps v t)
  show "queue_write_off (parse_ltc d b offset posinfo) = queue_slot d + 1"
    using push_forward_queue(2) [OF ok, of offset posinfo]
    by (simp add: p parse_absorbed_queue)
  show "bit_cnt (parse_ltc d b offset posinfo) = 0"
    by (simp add: p)
qed

text \<open>
  C3, as amended. When the sync word is \<open>0x3FFD\<close> and \<open>bit_cnt\<close> is 80 once the bit is
  absorbed (decoder \<open>a\<close>), the slot of the queue receives: the register as payload; the
  ring of tics read from the tic index on, entry \<open>bc\<close> being slot
  \<open>(biphase_tic + bc) mod 80\<close> of the ring, so that entry 0 is the oldest of the last 80
  tics; \<open>off_start = frame_start_off\<close>; \<open>off_end = posinfo + offset - 1\<close>;
  \<open>reverse = 0\<close>; the volume and the extremes of the envelope. The write offset moves
  behind the slot and \<open>bit_cnt\<close> is 0 afterwards. Entry 0 is not the tic of the first bit
  of the frame: the ring has 80 slots and is written once per tic, and a bit takes two
  tics (section \<open>A frame on tape\<close>).
\<close>

theorem forward_frame:
  assumes "decoder_sync_word (parse_absorbed d b offset posinfo) = 0x3FFD"
    and "bit_cnt (parse_absorbed d b offset posinfo) = LTC_FRAME_BIT_COUNT"
    and "queue_ok d"
  shows "(let a = parse_absorbed d b offset posinfo;
              d' = parse_ltc d b offset posinfo;
              e = queue d' ! queue_slot d
          in ltc e = ltc_frame a
           \<and> length (ext_biphase_tics e) = LTC_FRAME_BIT_COUNT
           \<and> (\<forall>bc<LTC_FRAME_BIT_COUNT. ext_biphase_tics e ! bc =
                 biphase_tics d ! ((biphase_tic d + bc) mod LTC_FRAME_BIT_COUNT))
           \<and> off_start e = frame_start_off a
           \<and> off_end e = posinfo + offset - 1
           \<and> reverse e = 0
           \<and> volume e = calc_volume_db d
           \<and> sample_min e = snd_to_biphase_min d
           \<and> sample_max e = snd_to_biphase_max d
           \<and> queue_write_off d' = queue_slot d + 1
           \<and> bit_cnt d' = 0)"
  using forward_entry [OF assms] by (simp add: Let_def copy_tics_nth)

text \<open>A witness: the decoder \<open>forward_ready\<close> and the bit 1.\<close>

theorem forward_frame_witness:
  "decoder_sync_word (parse_absorbed forward_ready 1 0 100) = 0x3FFD
   \<and> bit_cnt (parse_absorbed forward_ready 1 0 100) = LTC_FRAME_BIT_COUNT
   \<and> queue_ok forward_ready
   \<and> off_end (queue (parse_ltc forward_ready 1 0 100) ! 0) = 99
   \<and> reverse (queue (parse_ltc forward_ready 1 0 100) ! 0) = 0
   \<and> volume (queue (parse_ltc forward_ready 1 0 100) ! 0) = MinusInfinity
   \<and> length (ext_biphase_tics (queue (parse_ltc forward_ready 1 0 100) ! 0)) = 80
   \<and> queue_write_off (parse_ltc forward_ready 1 0 100) = 1
   \<and> bit_cnt (parse_ltc forward_ready 1 0 100) = 0"
  using forward_frame [OF forward_ready_absorbed(1,2,3)]
  by (simp add: Let_def forward_ready_absorbed)
    (simp add: calc_volume_db_def forward_ready_def start_decoder_def)


section \<open>Reverse frames\<close>

lemma parse_absorbed_length:
  assumes "length (ltc_frame d) = 10"
  shows "length (ltc_frame (parse_absorbed d b offset posinfo)) = 10"
proof -
  have g: "length (ltc_frame (parse_begin d offset posinfo)) = 10"
    using assms by (simp add: parse_begin_def Let_def)
  then have "length (ltc_frame (parse_overflow (parse_begin d offset posinfo))) = 10"
    by (auto simp: parse_overflow_def elim!: list10 simp: shift_frame_list)
  then show ?thesis
    by (simp add: parse_absorbed_def parse_absorb_def Let_def)
qed

lemma swapped_frame:
  assumes "length f = 10"
  shows "length (swap_bytes (swap_bits f)) = 10"
    and "k < 8 \<Longrightarrow> swap_bytes (swap_bits f) ! k = swap_byte (f ! (7 - k))"
    and "swap_bytes (swap_bits f) ! 8 = swap_byte (f ! 8)"
    and "swap_bytes (swap_bits f) ! 9 = swap_byte (f ! 9)"
proof -
  from assms obtain b0 b1 b2 b3 b4 b5 b6 b7 b8 b9
    where f: "f = [b0, b1, b2, b3, b4, b5, b6, b7, b8, b9]"
    by (rule list10)
  show "length (swap_bytes (swap_bits f)) = 10"
    and "swap_bytes (swap_bits f) ! 8 = swap_byte (f ! 8)"
    and "swap_bytes (swap_bits f) ! 9 = swap_byte (f ! 9)"
    by (simp_all add: f swap_bits_list swap_bytes_list)
  show "swap_bytes (swap_bits f) ! k = swap_byte (f ! (7 - k))" if "k < 8"
  proof -
    from that consider "k = 0" | "k = 1" | "k = 2" | "k = 3" | "k = 4" | "k = 5" | "k = 6" | "k = 7"
      by atomize_elim arith
    then show ?thesis
      by cases (simp_all add: f swap_bits_list swap_bytes_list)
  qed
qed

lemma reverse_entry:
  assumes "decoder_sync_word (parse_absorbed d b offset posinfo) = 0xBFFC"
    and "bit_cnt (parse_absorbed d b offset posinfo) = 80"
    and "queue_ok d"
  shows "queue (parse_ltc d b offset posinfo) ! queue_slot d =
           \<lparr>ltc = swap_bytes (swap_bits (ltc_frame (parse_absorbed d b offset posinfo))),
            off_start = c_trunc (dbl (dbl (real_of_int
                            (frame_start_off (parse_absorbed d b offset posinfo)))
                          - dbl (16 * snd_to_biphase_period d))),
            off_end = c_trunc (dbl (dbl (real_of_int (posinfo + offset - 1))
                          - dbl (16 * snd_to_biphase_period d))),
            reverse = c_trunc (dbl (80 * snd_to_biphase_period d)),
            ext_biphase_tics = copy_tics d,
            sample_min = snd_to_biphase_min d, sample_max = snd_to_biphase_max d,
            volume = calc_volume_db d\<rparr>"
    and "queue_write_off (parse_ltc d b offset posinfo) = queue_slot d + 1"
    and "bit_cnt (parse_ltc d b offset posinfo) = 0"
proof -
  let ?a = "parse_absorbed d b offset posinfo"
  let ?r = "?a\<lparr>ltc_frame := swap_bytes (swap_bits (ltc_frame ?a))\<rparr>"
  have ok: "queue_ok ?r" using assms(3) by (simp add: parse_absorbed_queue queue_ok_def)
  have slot: "queue_slot ?r = queue_slot d"
    by (simp add: queue_slot_def parse_absorbed_queue)
  have p: "parse_ltc d b offset posinfo = (push_reverse ?r offset posinfo)\<lparr>bit_cnt := 0\<rparr>"
    using assms(1,2) by (simp add: parse_ltc_cases Let_def)
  have v: "calc_volume_db ?r = calc_volume_db d"
    by (rule calc_volume_db_cong) (simp_all add: parse_absorbed_keeps)
  have t: "copy_tics ?r = copy_tics d"
    by (rule copy_tics_cong) (simp_all add: parse_absorbed_keeps)
  show "queue (parse_ltc d b offset posinfo) ! queue_slot d =
           \<lparr>ltc = swap_bytes (swap_bits (ltc_frame ?a)),
            off_start = c_trunc (dbl (dbl (real_of_int (frame_start_off ?a))
                          - dbl (16 * snd_to_biphase_period d))),
            off_end = c_trunc (dbl (dbl (real_of_int (posinfo + offset - 1))
                          - dbl (16 * snd_to_biphase_period d))),
            reverse = c_trunc (dbl (80 * snd_to_biphase_period d)),
            ext_biphase_tics = copy_tics d,
            sample_min = snd_to_biphase_min d, sample_max = snd_to_biphase_max d,
            volume = calc_volume_db d\<rparr>"
    using push_reverse_queue(1) [OF ok, of offset posinfo]
    by (simp add: p slot parse_absorbed_keeps v t)
  show "queue_write_off (parse_ltc d b offset posinfo) = queue_slot d + 1"
    using push_reverse_queue(2) [OF ok, of offset posinfo]
    by (simp add: p slot)
  show "bit_cnt (parse_ltc d b offset posinfo) = 0"
    by (simp add: p)
qed

text \<open>The period between the samples of a run. Every function below \<open>classify\<close> lets at
  most one bit in per tic; \<open>track_period\<close> either resets \<open>bit_cnt\<close> or, when at least one
  sample was counted, brings the period to 1/4 or more.\<close>

lemma parse_absorbed_bit_cnt:
  "bit_cnt (parse_absorbed d b offset posinfo) =
     (if 80 \<le> bit_cnt d then bit_cnt d - 1 else bit_cnt d) + 1"
  by (simp add: parse_absorbed_def parse_absorb_keeps parse_overflow_def parse_begin_keeps)

lemma parse_ltc_bit_cnt: "bit_cnt (parse_ltc d b offset posinfo) \<le> bit_cnt d + 1"
  by (simp add: parse_ltc_cases Let_def push_forward_keeps push_reverse_keeps
      parse_absorbed_bit_cnt)

lemma biphase_decode2_bit_cnt: "bit_cnt (biphase_decode2 d offset pos) \<le> bit_cnt d + 1"
proof -
  have "bit_cnt (parse_ltc d' b offset p) \<le> bit_cnt d + 1" if "bit_cnt d' = bit_cnt d" for d' b p
    using parse_ltc_bit_cnt [of d' b offset p] that by simp
  then show ?thesis
    by (simp add: biphase_decode2_def Let_def)
qed

lemma classify_bit_cnt: "bit_cnt (classify d i posinfo) \<le> bit_cnt d + 2"
proof -
  have "bit_cnt (biphase_decode2 (biphase_decode2 d i posinfo) i posinfo) \<le> bit_cnt d + 2"
    using biphase_decode2_bit_cnt [of "biphase_decode2 d i posinfo" i posinfo]
      biphase_decode2_bit_cnt [of d i posinfo] by simp
  moreover have "bit_cnt (biphase_decode2 (d\<lparr>snd_to_biphase_cnt := c\<rparr>) i posinfo) \<le> bit_cnt d + 2"
    for c
    using biphase_decode2_bit_cnt [of "d\<lparr>snd_to_biphase_cnt := c\<rparr>" i posinfo] by simp
  ultimately show ?thesis
    by (simp add: classify_def)
qed

lemma classify_cnt:
  "snd_to_biphase_cnt (classify d i posinfo) =
     (if int (snd_to_biphase_cnt d) > snd_to_biphase_lmt d
      then snd_to_biphase_cnt d else snd_to_biphase_cnt d * 2)"
  by (simp add: classify_def biphase_decode2_keeps)

lemma period_update_nonneg:
  assumes "0 \<le> p"
  shows "0 \<le> dbl (dbl (dbl (p * 3) + dbl (real c)) / 4)"
proof -
  have "0 \<le> dbl (p * 3)" "0 \<le> dbl (real c)"
    using assms by (simp_all add: dbl_nonneg)
  then have "0 \<le> dbl (dbl (p * 3) + dbl (real c))"
    by (simp add: dbl_nonneg)
  then show ?thesis
    by (simp add: dbl_nonneg)
qed

lemma period_update_quarter:
  assumes "0 \<le> p" and "0 < c"
  shows "1 / 4 \<le> dbl (dbl (dbl (p * 3) + dbl (real c)) / 4)"
proof -
  have "0 \<le> dbl (p * 3)"
    using assms(1) by (simp add: dbl_nonneg)
  moreover have "dbl 1 \<le> dbl (real c)"
    using assms(2) by (intro dbl_mono) simp
  ultimately have "1 \<le> dbl (p * 3) + dbl (real c)"
    by simp
  then have "dbl 1 \<le> dbl (dbl (p * 3) + dbl (real c))"
    by (rule dbl_mono)
  then have "1 / 4 \<le> dbl (dbl (p * 3) + dbl (real c)) / 4"
    by simp
  then have "dbl (1 / 4) \<le> dbl (dbl (dbl (p * 3) + dbl (real c)) / 4)"
    by (rule dbl_mono)
  then show ?thesis
    by (simp add: dbl_quarter)
qed

lemma track_period_tracked:
  assumes "0 \<le> snd_to_biphase_period d"
    and "snd_to_biphase_cnt d = 0 \<Longrightarrow> bit_cnt d \<le> 2"
  shows "0 \<le> snd_to_biphase_period (track_period d)"
    and "bit_cnt (track_period d) \<le> 2 \<or> 1 / 4 \<le> snd_to_biphase_period (track_period d)"
proof -
  show "0 \<le> snd_to_biphase_period (track_period d)"
    using assms(1) by (simp add: track_period_def Let_def period_update_nonneg)
  show "bit_cnt (track_period d) \<le> 2 \<or> 1 / 4 \<le> snd_to_biphase_period (track_period d)"
  proof (cases "snd_to_biphase_cnt d = 0")
    case True
    with assms(2) show ?thesis
      by (simp add: track_period_def Let_def)
  next
    case False
    then have "1 / 4 \<le> dbl (dbl (dbl (snd_to_biphase_period d * 3)
        + dbl (real (snd_to_biphase_cnt d))) / 4)"
      using assms(1) by (intro period_update_quarter) simp_all
    then show ?thesis
      by (simp add: track_period_def Let_def)
  qed
qed

lemma state_changed_tracked:
  assumes "period_tracked d"
  shows "0 \<le> snd_to_biphase_period (state_changed d i posinfo)"
    and "bit_cnt (state_changed d i posinfo) \<le> 2
         \<or> 1 / 4 \<le> snd_to_biphase_period (state_changed d i posinfo)"
proof -
  let ?c = "classify d i posinfo"
  have p: "0 \<le> snd_to_biphase_period ?c"
    using assms by (simp add: classify_keeps period_tracked_def)
  have b: "bit_cnt ?c \<le> 2" if "snd_to_biphase_cnt ?c = 0"
  proof -
    from that have "snd_to_biphase_cnt d = 0"
      by (simp add: classify_cnt split: if_splits)
    with assms have "bit_cnt d = 0"
      by (simp add: period_tracked_def)
    with classify_bit_cnt [of d i posinfo] show ?thesis by simp
  qed
  from track_period_tracked [OF p b]
  show "0 \<le> snd_to_biphase_period (state_changed d i posinfo)"
    and "bit_cnt (state_changed d i posinfo) \<le> 2
         \<or> 1 / 4 \<le> snd_to_biphase_period (state_changed d i posinfo)"
    by (simp_all add: state_changed_def Let_def)
qed

lemma decode_sample_tracked:
  assumes "period_tracked d"
  shows "period_tracked (decode_sample d s i posinfo)"
proof -
  let ?e = "track_envelope d s"
  have e: "period_tracked ?e"
    using assms
    by (cases "snd_to_biphase_cnt d = 0") (simp_all add: period_tracked_def track_envelope_keeps)
  show ?thesis
  proof (cases "state_change ?e s")
    case True
    with state_changed_tracked [OF e, of "int i" posinfo] show ?thesis
      by (simp add: decode_sample_def Let_def period_tracked_def)
  next
    case False
    with e show ?thesis
      by (auto simp: decode_sample_def Let_def period_tracked_def split: if_splits)
  qed
qed

text \<open>A run that starts tracked stays tracked, and each tic of a sample works on a
  decoder that is ready: the first tic (on the count as it is, or doubled) and the second
  tic of a long interval. \<open>biphase_decode2\<close> hands its decoder to \<open>parse_ltc\<close> with
  \<open>bit_cnt\<close> and the period as they are.\<close>

lemma decode_ltc_tracked:
  assumes "period_tracked d" and "sz \<le> length sound"
  shows "\<exists>d'. decode_ltc d sound sz posinfo = Some (d', sound) \<and> period_tracked d'"
  unfolding decode_ltc_def
  using decode_sample_tracked assms by (rule decode_loop_inv)

lemma tracked_tics:
  assumes "period_tracked d"
  shows "tic_ready (track_envelope d s)"
    and "tic_ready ((track_envelope d s)\<lparr>snd_to_biphase_cnt := c\<rparr>)"
    and "tic_ready (biphase_decode2 (track_envelope d s) i posinfo)"
proof -
  have e: "bit_cnt (track_envelope d s) \<le> 2 \<or> 1 / 4 \<le> snd_to_biphase_period (track_envelope d s)"
    using assms
    by (cases "snd_to_biphase_cnt d = 0") (simp_all add: period_tracked_def track_envelope_keeps)
  then show "tic_ready (track_envelope d s)"
    and "tic_ready ((track_envelope d s)\<lparr>snd_to_biphase_cnt := c\<rparr>)"
    by (auto simp: tic_ready_def)
  show "tic_ready (biphase_decode2 (track_envelope d s) i posinfo)"
    using e biphase_decode2_bit_cnt [of "track_envelope d s" i posinfo]
    by (auto simp: tic_ready_def biphase_decode2_keeps)
qed

lemma c_trunc_mono: "x \<le> y \<Longrightarrow> c_trunc x \<le> c_trunc y"
  unfolding c_trunc_def
  by (auto intro: floor_mono ceiling_mono)
    (meson ceiling_le_zero floor_mono le_floor_iff of_int_0 order_trans zero_le_floor linorder_le_cases)+

text \<open>
  C5. When the sync word is \<open>0xBFFC\<close> and \<open>bit_cnt\<close> is 80 once the bit is absorbed
  (decoder \<open>a\<close>), the payload written to the queue is the register of \<open>a\<close> with the bits
  of every byte in reverse order and the bytes 0 to 7 in reverse order, the bytes 8 and 9
  in place; \<open>off_start\<close> and \<open>off_end\<close> are those of the forward case less \<open>16 * period\<close>;
  \<open>reverse\<close> is \<open>80 * period\<close>, the length of the 80 bits of a frame in samples; the write
  offset moves behind the slot and \<open>bit_cnt\<close> is 0 afterwards. The differences and the
  product are \<^verbatim>\<open>double\<close> operations, each rounded by \<open>dbl\<close> and cut to an integer on
  assignment. The decoder at the tic is \<open>tic_ready\<close>, as it is at every tic of a run
  (lemmas \<open>decode_ltc_tracked\<close> and \<open>tracked_tics\<close>): with 79 bits in, its period is at
  least 1/4, so that \<open>reverse\<close> is at least 20 and never 0.
\<close>

theorem reverse_frame:
  assumes "decoder_sync_word (parse_absorbed d b offset posinfo) = 0xBFFC"
    and "bit_cnt (parse_absorbed d b offset posinfo) = LTC_FRAME_BIT_COUNT"
    and "queue_ok d"
    and "length (ltc_frame d) = 10"
    and "tic_ready d"
  shows "(let a = parse_absorbed d b offset posinfo;
              d' = parse_ltc d b offset posinfo;
              e = queue d' ! queue_slot d
          in length (ltc e) = 10
           \<and> (\<forall>k<8. \<forall>n<8. bit (ltc e ! k) n = bit (ltc_frame a ! (7 - k)) (7 - n))
           \<and> (\<forall>n<8. bit (ltc e ! 8) n = bit (ltc_frame a ! 8) (7 - n))
           \<and> (\<forall>n<8. bit (ltc e ! 9) n = bit (ltc_frame a ! 9) (7 - n))
           \<and> off_start e = c_trunc (dbl (dbl (real_of_int (frame_start_off a))
                                         - dbl (16 * snd_to_biphase_period d)))
           \<and> off_end e = c_trunc (dbl (dbl (real_of_int (posinfo + offset - 1))
                                       - dbl (16 * snd_to_biphase_period d)))
           \<and> reverse e = c_trunc (dbl (80 * snd_to_biphase_period d))
           \<and> 20 \<le> reverse e
           \<and> reverse e \<noteq> 0
           \<and> queue_write_off d' = queue_slot d + 1
           \<and> bit_cnt d' = 0)"
proof -
  have "79 \<le> bit_cnt d"
    using assms(2) by (simp add: parse_absorbed_bit_cnt split: if_splits)
  with assms(5) have "1 / 4 \<le> snd_to_biphase_period d"
    by (simp add: tic_ready_def)
  then have "dbl 20 \<le> dbl (80 * snd_to_biphase_period d)"
    by (intro dbl_mono) simp
  then have "c_trunc 20 \<le> c_trunc (dbl (80 * snd_to_biphase_period d))"
    by (intro c_trunc_mono) simp
  then have "20 \<le> c_trunc (dbl (80 * snd_to_biphase_period d))"
    by (simp add: c_trunc_def)
  then show ?thesis
    using reverse_entry [OF assms(1-3)] swapped_frame [OF parse_absorbed_length [OF assms(4)]]
    by (simp add: Let_def swap_byte_bit)
qed

text \<open>A witness: the decoder \<open>reverse_ready\<close>, period 24, and the bit 0.\<close>

theorem reverse_frame_witness:
  "decoder_sync_word (parse_absorbed reverse_ready 0 0 100) = 0xBFFC
   \<and> bit_cnt (parse_absorbed reverse_ready 0 0 100) = LTC_FRAME_BIT_COUNT
   \<and> queue_ok reverse_ready
   \<and> length (ltc_frame reverse_ready) = 10
   \<and> tic_ready reverse_ready
   \<and> off_start (queue (parse_ltc reverse_ready 0 0 100) ! 0) = - 384
   \<and> off_end (queue (parse_ltc reverse_ready 0 0 100) ! 0) = - 285
   \<and> reverse (queue (parse_ltc reverse_ready 0 0 100) ! 0) = 1920
   \<and> queue_write_off (parse_ltc reverse_ready 0 0 100) = 1
   \<and> bit_cnt (parse_ltc reverse_ready 0 0 100) = 0"
  using reverse_frame [OF reverse_ready_absorbed(1,2,3,5,8)]
  by (simp add: Let_def reverse_ready_absorbed c_trunc_def ceiling_minus)

text \<open>Rounding shows at the \<^verbatim>\<open>double\<close> next to 0.3, where the product with 80 is rounded
  to 24 (the exact product is cut to 23), and at the period \<open>20 + 2 ^ - 40\<close> and the end
  position 172800000, where the difference is rounded to 172799680 (the exact difference
  is cut to 172799679).\<close>

lemma reverse_fraction:
  "reverse (queue (parse_ltc reverse_ready_fraction 0 0 100) ! 0) = 24
   \<and> c_trunc (80 * snd_to_biphase_period reverse_ready_fraction) = 23"
  by code_simp

lemma reverse_far:
  "off_end (queue (parse_ltc reverse_ready_far 0 1 172800000) ! 0) = 172799680
   \<and> c_trunc (172800000 - 16 * snd_to_biphase_period reverse_ready_far) = 172799679"
  by code_simp


section \<open>A frame on tape\<close>

text \<open>What \<open>decode_sample\<close> does on the samples 129 and 127 of the tape, and what a long
  edge does that ends a bit 0 inside a frame.\<close>

lemma parse_zero_plain:
  assumes "0 < bit_cnt d" and "bit_cnt d < 80" and "decoder_sync_word d = 0"
  shows "parse_ltc d 0 offset posinfo =
    d\<lparr>frame_start_prev := offset + posinfo, bit_cnt := bit_cnt d + 1\<rparr>"
  using assms
  by (simp add: parse_ltc_def parse_absorbed_def parse_begin_def parse_overflow_def parse_absorb_def
      parse_forward_def parse_reverse_def Let_def)

lemma tick_idle:
  assumes "snd_to_biphase_state d \<noteq> biphase_prev d" and "biphase_state d = 1"
  shows "biphase_decode2 d offset pos =
    d\<lparr>biphase_tics := (biphase_tics d)[biphase_tic d := snd_to_biphase_period d],
      biphase_tic := (biphase_tic d + 1) mod 80,
      biphase_state := 0,
      biphase_prev := snd_to_biphase_state d\<rparr>"
  using assms by (simp add: biphase_decode2_def Let_def)

lemma tick_pos_update [simp]:
  "tick_pos (d\<lparr>biphase_tics := ts\<rparr>) pos = tick_pos d pos"
  "tick_pos (d\<lparr>biphase_tic := t\<rparr>) pos = tick_pos d pos"
  "tick_pos (d\<lparr>biphase_state := bs\<rparr>) pos = tick_pos d pos"
  "tick_pos (d\<lparr>biphase_prev := bp\<rparr>) pos = tick_pos d pos"
  by (simp_all add: tick_pos_def)

lemma tick_zero:
  assumes "snd_to_biphase_state d = biphase_prev d"
    and "0 < bit_cnt d" and "bit_cnt d < 80" and "decoder_sync_word d = 0"
  shows "biphase_decode2 d offset pos =
    d\<lparr>biphase_tics := (biphase_tics d)[biphase_tic d := snd_to_biphase_period d],
      biphase_tic := (biphase_tic d + 1) mod 80,
      biphase_state := 1,
      frame_start_prev := offset + tick_pos d pos,
      bit_cnt := bit_cnt d + 1\<rparr>"
proof -
  have "parse_ltc d' 0 offset (tick_pos d pos) =
      d'\<lparr>frame_start_prev := offset + tick_pos d pos, bit_cnt := bit_cnt d' + 1\<rparr>"
    if "bit_cnt d' = bit_cnt d" "decoder_sync_word d' = decoder_sync_word d" for d'
    using assms(2-4) that by (intro parse_zero_plain) simp_all
  then show ?thesis
    using assms(1) by (simp add: biphase_decode2_def Let_def)
qed

lemma long_edge_zero:
  assumes "snd_to_biphase_lmt d < int (snd_to_biphase_cnt d)"
    and "snd_to_biphase_state d \<noteq> biphase_prev d" and "biphase_state d = 1"
    and "0 < bit_cnt d" and "bit_cnt d < 80" and "decoder_sync_word d = 0"
    and "snd_to_biphase_cnt d \<le> 16"
  shows "state_changed d i posinfo =
    d\<lparr>biphase_tics := (biphase_tics d)[biphase_tic d := snd_to_biphase_period d,
                                       (biphase_tic d + 1) mod 80 := snd_to_biphase_period d],
      biphase_tic := (biphase_tic d + 2) mod 80,
      biphase_state := 1,
      biphase_prev := snd_to_biphase_state d,
      frame_start_prev := i + tick_pos d posinfo,
      bit_cnt := bit_cnt d + 1,
      snd_to_biphase_period :=
        dbl (dbl (dbl (snd_to_biphase_period d * 3) + dbl (real (snd_to_biphase_cnt d))) / 4),
      snd_to_biphase_lmt :=
        c_trunc (dbl (dbl (dbl (dbl (dbl (snd_to_biphase_period d * 3)
                   + dbl (real (snd_to_biphase_cnt d))) / 4) * 3) / 4)),
      snd_to_biphase_cnt := 0,
      snd_to_biphase_state := (if snd_to_biphase_state d = 0 then 1 else 0)\<rparr>"
proof -
  let ?d1 = "biphase_decode2 d i posinfo"
  have d1: "?d1 = d\<lparr>biphase_tics := (biphase_tics d)[biphase_tic d := snd_to_biphase_period d],
      biphase_tic := (biphase_tic d + 1) mod 80, biphase_state := 0,
      biphase_prev := snd_to_biphase_state d\<rparr>"
    using assms(2,3) by (rule tick_idle)
  have "biphase_decode2 ?d1 i posinfo =
      ?d1\<lparr>biphase_tics := (biphase_tics ?d1)[biphase_tic ?d1 := snd_to_biphase_period ?d1],
        biphase_tic := (biphase_tic ?d1 + 1) mod 80, biphase_state := 1,
        frame_start_prev := i + tick_pos ?d1 posinfo, bit_cnt := bit_cnt ?d1 + 1\<rparr>"
    using assms(4-6) by (intro tick_zero) (simp_all add: d1)
  then have d2: "biphase_decode2 ?d1 i posinfo =
      d\<lparr>biphase_tics := (biphase_tics d)[biphase_tic d := snd_to_biphase_period d,
                                         (biphase_tic d + 1) mod 80 := snd_to_biphase_period d],
        biphase_tic := (biphase_tic d + 2) mod 80, biphase_state := 1,
        biphase_prev := snd_to_biphase_state d,
        frame_start_prev := i + tick_pos d posinfo, bit_cnt := bit_cnt d + 1\<rparr>"
    by (simp add: d1 mod_simps)
  show ?thesis
    using assms(1,7) by (simp add: state_changed_def classify_def d2 track_period_def Let_def)
qed

lemma sample_129:
  assumes "snd_to_biphase_min d = 127 \<or> snd_to_biphase_min d = 128"
    and "snd_to_biphase_max d = 128 \<or> snd_to_biphase_max d = 129"
  shows "decode_sample d 129 i posinfo =
    (if snd_to_biphase_state d \<noteq> 0
     then (state_changed (d\<lparr>snd_to_biphase_min := 128, snd_to_biphase_max := 129\<rparr>) (int i) posinfo)
            \<lparr>snd_to_biphase_cnt := 1\<rparr>
     else d\<lparr>snd_to_biphase_min := 128, snd_to_biphase_max := 129,
            snd_to_biphase_cnt := snd_to_biphase_cnt d + 1\<rparr>)"
proof -
  have env: "track_envelope d 129 = d\<lparr>snd_to_biphase_min := 128, snd_to_biphase_max := 129\<rparr>"
    using assms by (auto simp: track_envelope_def Let_def c_div_def)
  have thr: "min_threshold (track_envelope d 129) = 128" "max_threshold (track_envelope d 129) = 128"
    by (simp_all add: env min_threshold_def max_threshold_def c_div_def)
  have cnt0: "snd_to_biphase_cnt (state_changed d' i' p') = 0" for d' i' p'
    by (simp add: state_changed_def Let_def)
  show ?thesis
    by (simp add: decode_sample_def Let_def state_change_def thr cnt0) (simp add: env)
qed

lemma sample_127:
  assumes "snd_to_biphase_min d = 127 \<or> snd_to_biphase_min d = 128"
    and "snd_to_biphase_max d = 128 \<or> snd_to_biphase_max d = 129"
  shows "decode_sample d 127 i posinfo =
    (if snd_to_biphase_state d = 0
     then (state_changed (d\<lparr>snd_to_biphase_min := 127, snd_to_biphase_max := 128\<rparr>) (int i) posinfo)
            \<lparr>snd_to_biphase_cnt := 1\<rparr>
     else d\<lparr>snd_to_biphase_min := 127, snd_to_biphase_max := 128,
            snd_to_biphase_cnt := snd_to_biphase_cnt d + 1\<rparr>)"
proof -
  have env: "track_envelope d 127 = d\<lparr>snd_to_biphase_min := 127, snd_to_biphase_max := 128\<rparr>"
    using assms by (auto simp: track_envelope_def Let_def c_div_def)
  have thr: "min_threshold (track_envelope d 127) = 128" "max_threshold (track_envelope d 127) = 128"
    by (simp_all add: env min_threshold_def max_threshold_def c_div_def)
  have cnt0: "snd_to_biphase_cnt (state_changed d' i' p') = 0" for d' i' p'
    by (simp add: state_changed_def Let_def)
  show ?thesis
    by (simp add: decode_sample_def Let_def state_change_def thr cnt0) (simp add: env)
qed

lemmas decoder_defs = decode_sample_def track_envelope_def c_div_def c_trunc_def
  state_change_def min_threshold_def max_threshold_def state_changed_def classify_def
  biphase_decode2_def tick_pos_def parse_ltc_def parse_absorbed_def parse_begin_def
  parse_overflow_def parse_absorb_def parse_forward_def parse_reverse_def push_forward_def
  push_reverse_def copy_tics_def queue_slot_def calc_volume_db_def track_period_def Let_def

text \<open>The tape in three parts: the lead-in, the bits 0, the sync word.\<close>

lemma lead_in: "decode_samples tape_decoder tape_lead_in 0 0 = tape_zeros 0"
  by (simp add: decoder_defs tape_decoder_def tape_zeros_def tape_lead_in_def ceiling_minus)

lemma two_zero_bits:
  assumes "n < 32"
  shows "decode_samples (tape_zeros n) [127, 129, 129, 127] (6 + 4 * n) 0 = tape_zeros (Suc n)"
proof -
  let ?z = "tape_zeros n"
  let ?s1 = "?z\<lparr>snd_to_biphase_cnt := 2\<rparr>"
  have s1: "decode_sample ?z 127 (6 + 4 * n) 0 = ?s1"
    by (subst sample_127) (simp_all add: tape_zeros_def)
  let ?s2 = "?z\<lparr>snd_to_biphase_min := 128, snd_to_biphase_max := 129, snd_to_biphase_state := 0,
      biphase_prev := 1, bit_cnt := 3 + 2 * n, frame_start_prev := 7 + 4 * int n,
      biphase_tics := (zero_ring n)[(2 + 4 * n) mod 80 := 2, (3 + 4 * n) mod 80 := 2],
      biphase_tic := (4 + 4 * n) mod 80\<rparr>"
  have s2: "decode_sample ?s1 129 (7 + 4 * n) 0 = ?s2"
    using assms
    by (subst sample_129, simp add: tape_zeros_def, simp add: tape_zeros_def)
      (subst long_edge_zero,
        simp_all add: tape_zeros_def tick_pos_def c_trunc_def mod_simps algebra_simps)
  let ?s3 = "?s2\<lparr>snd_to_biphase_cnt := 2\<rparr>"
  have s3: "decode_sample ?s2 129 (8 + 4 * n) 0 = ?s3"
    by (subst sample_129) (simp_all add: tape_zeros_def)
  have s4: "decode_sample ?s3 127 (9 + 4 * n) 0 = tape_zeros (Suc n)"
    using assms
    by (subst sample_127, simp add: tape_zeros_def, simp add: tape_zeros_def)
      (subst long_edge_zero,
        simp_all add: tape_zeros_def tick_pos_def c_trunc_def mod_simps algebra_simps)
  have idx: "6 + 4 * n + 1 = 7 + 4 * n" "7 + 4 * n + 1 = 8 + 4 * n" "8 + 4 * n + 1 = 9 + 4 * n"
    by simp_all
  show ?thesis
    by (simp only: decode_samples.simps s1 idx s2 s3 s4)
qed

lemma decode_samples_append:
  "decode_samples d (xs @ ys) i posinfo =
     decode_samples (decode_samples d xs i posinfo) ys (i + length xs) posinfo"
  by (induction xs arbitrary: d i) simp_all

lemma length_concat_replicate: "length (concat (replicate k xs)) = k * length xs"
  by (induction k) simp_all

lemma zero_phase:
  "k \<le> 32 \<Longrightarrow>
   decode_samples (tape_zeros 0) (concat (replicate k [127, 129, 129, 127])) 6 0 = tape_zeros k"
proof (induction k)
  case 0
  then show ?case by simp
next
  case (Suc k)
  have "concat (replicate (Suc k) xs) = concat (replicate k xs) @ xs" for xs :: "8 word list"
    by (induction k) simp_all
  then have "concat (replicate (Suc k) [127, 129, 129, 127 :: 8 word]) =
      concat (replicate k [127, 129, 129, 127]) @ [127, 129, 129, 127]" .
  moreover have "length (concat (replicate k [127, 129, 129, 127 :: 8 word])) = 4 * k"
    by (simp add: length_concat_replicate)
  ultimately show ?case
    using Suc two_zero_bits [of k] by (simp add: decode_samples_append del: replicate_Suc)
qed

lemma zero_ring_full: "zero_ring 32 = replicate 80 2"
  by code_simp

lemma replicate_update_same [simp]: "(replicate n x)[i := x] = replicate n x"
  by (cases "i < n") (auto simp: list_eq_iff_nth_eq nth_list_update)

lemma sync_bytes: "(replicate 10 0)[8 := 252, 9 := 191] = [0, 0, 0, 0, 0, 0, 0, 0, 252, 191 :: 8 word]"
  by code_simp

lemma tail: "decode_samples (tape_zeros 32) tape_sync 134 0 = tape_end"
  by (simp add: tape_zeros_def zero_ring_full decoder_defs tape_end_def empty_slot_def sync_bytes
      map_replicate_const tape_sync_def)

text \<open>\<open>decode_ltc\<close> on the first \<open>k\<close> samples of an array.\<close>

lemma decode_loop_samples:
  "i \<le> k \<Longrightarrow> k \<le> length sound \<Longrightarrow>
   decode_loop d sound k posinfo i =
     Some (decode_samples d (take (k - i) (drop i sound)) i posinfo, sound)"
proof (induction d sound k posinfo i rule: decode_loop.induct)
  case (1 d sound sz posinfo i)
  show ?case
  proof (cases "i < sz")
    case True
    with "1.prems" have len: "i < length sound" by simp
    have "take (sz - i) (drop i sound) = sound ! i # take (sz - (i + 1)) (drop (i + 1) sound)"
      using True len by (simp add: Cons_nth_drop_Suc [symmetric] take_Suc_Cons [symmetric]
          Suc_diff_Suc del: take_Suc_Cons)
    with "1.IH" [OF True len] True len "1.prems" show ?thesis
      by (subst decode_loop.simps) simp
  next
    case False
    with "1.prems" show ?thesis
      by (subst decode_loop.simps) simp
  qed
qed

lemma decode_ltc_samples:
  "k \<le> length sound \<Longrightarrow>
   decode_ltc d sound k posinfo = Some (decode_samples d (take k sound) 0 posinfo, sound)"
  using decode_loop_samples [of 0 k sound d posinfo] by (simp add: decode_ltc_def)

lemma tape_length: "length tape = 162" "length tape_lead_in = 6" "length tape_sync = 28"
  by (simp_all add: tape_def tape_lead_in_def tape_sync_def length_concat_replicate)

lemma tape_run: "decode_ltc tape_decoder tape 162 0 = Some (tape_end, tape)"
proof -
  have "decode_samples tape_decoder tape 0 0 = tape_end"
    using zero_phase [of 32]
    by (simp add: tape_def decode_samples_append lead_in tape_length tail length_concat_replicate)
  then show ?thesis
    using decode_ltc_samples [of 162 tape tape_decoder 0] by (simp add: tape_length)
qed

lemma tape_first: "decode_ltc tape_decoder tape 6 0 = Some (tape_zeros 0, tape)"
proof -
  have "take 6 tape = tape_lead_in"
    by (simp add: tape_def tape_length)
  then show ?thesis
    using decode_ltc_samples [of 6 tape tape_decoder 0] by (simp add: tape_length lead_in)
qed

text \<open>The claim C3 as stated fails on the tape. The decoder starts with \<open>bit_cnt = 0\<close>;
  after six samples the first two bits of the frame are in, clocked by the tics 0 and 1,
  which record the period 1 in the slots 0 and 1 of the ring. At the end of the tape the
  frame that started there (same \<open>frame_start_off\<close>) is in the queue, and entry 0 of its
  period history is 2, as is every other entry: the ring was written 158 times in all,
  its slots 0 and 1 again at the tics 80 and 81.\<close>

theorem tics_not_from_first_bit:
  "bit_cnt tape_decoder = 0
   \<and> decode_ltc tape_decoder tape 6 0 = Some (tape_zeros 0, tape)
   \<and> bit_cnt (tape_zeros 0) = 2
   \<and> biphase_tic (tape_zeros 0) = 2
   \<and> biphase_tics (tape_zeros 0) ! 0 = 1
   \<and> biphase_tics (tape_zeros 0) ! 1 = 1
   \<and> decode_ltc tape_decoder tape 162 0 = Some (tape_end, tape)
   \<and> queue_write_off tape_end = 1
   \<and> off_start (queue tape_end ! 0) = frame_start_off (tape_zeros 0)
   \<and> ext_biphase_tics (queue tape_end ! 0) ! 0 = 2
   \<and> ext_biphase_tics (queue tape_end ! 0) ! 0 \<noteq> biphase_tics (tape_zeros 0) ! 0
   \<and> 1 \<notin> set (ext_biphase_tics (queue tape_end ! 0))"
  by (simp add: tape_run tape_first)
    (simp add: tape_decoder_def tape_zeros_def tape_end_def)

text \<open>The claim C9 as stated fails on the tape: the queue has one slot, and after the
  frame is written the write offset is 1, the capacity.\<close>

theorem cursor_at_capacity:
  "queue_ok tape_decoder
   \<and> decode_ltc tape_decoder tape 162 0 = Some (tape_end, tape)
   \<and> queue_write_off tape_end = queue_len tape_end
   \<and> \<not> queue_write_off tape_end < queue_len tape_end"
  by (simp add: tape_run) (simp add: tape_decoder_def tape_end_def queue_ok_def)

text \<open>The claim C6 as stated fails on the tape that has the sync word right after the
  lead-in: after 33 samples 15 bits are in; sample 34 brings the bit that completes the
  sync word, and \<open>bit_cnt\<close> is 0 afterwards although only 16 bits were in; no frame is
  written.\<close>

lemma early_sync_length: "length early_sync_tape = 34"
  by (simp add: early_sync_tape_def tape_length)

lemma early_sync_33:
  "bit_cnt (decode_samples (tape_zeros 0) (take 27 tape_sync) 6 0) = 15"
  by (simp add: tape_zeros_def decoder_defs tape_sync_def)

lemma early_sync_34:
  "(let d = decode_samples (tape_zeros 0) tape_sync 6 0
    in decoder_sync_word d = 0x3FFD \<and> bit_cnt d = 0 \<and> queue d = [empty_slot]
       \<and> queue_write_off d = 0)"
  by (simp add: tape_zeros_def decoder_defs tape_sync_def)

theorem early_sync_resets:
  "map_option (bit_cnt \<circ> fst) (decode_ltc tape_decoder early_sync_tape 33 0) = Some 15
   \<and> map_option (decoder_sync_word \<circ> fst) (decode_ltc tape_decoder early_sync_tape 34 0)
       = Some 0x3FFD
   \<and> map_option (bit_cnt \<circ> fst) (decode_ltc tape_decoder early_sync_tape 34 0) = Some 0
   \<and> map_option (queue \<circ> fst) (decode_ltc tape_decoder early_sync_tape 34 0) = Some [empty_slot]
   \<and> map_option (queue_write_off \<circ> fst) (decode_ltc tape_decoder early_sync_tape 34 0) = Some 0"
proof -
  have "take 33 early_sync_tape = tape_lead_in @ take 27 tape_sync"
    by (simp add: early_sync_tape_def tape_length)
  then have a: "decode_ltc tape_decoder early_sync_tape 33 0 =
      Some (decode_samples (tape_zeros 0) (take 27 tape_sync) 6 0, early_sync_tape)"
    using decode_ltc_samples [of 33 early_sync_tape tape_decoder 0]
    by (simp add: early_sync_length decode_samples_append lead_in tape_length)
  have b: "decode_ltc tape_decoder early_sync_tape 34 0 =
      Some (decode_samples (tape_zeros 0) tape_sync 6 0, early_sync_tape)"
    using decode_ltc_samples [of 34 early_sync_tape tape_decoder 0]
    by (simp add: early_sync_length) (simp add: early_sync_tape_def decode_samples_append
        lead_in tape_length)
  show ?thesis
    using early_sync_34 by (simp add: a b early_sync_33 Let_def)
qed


end
